theory Spec2Isabelle
  imports Complex_Main "HOL-Library.Word"
begin

unbundle bit_operations_syntax

section \<open>The offline audio transformation engine\<close>

text \<open>
  A shallow embedding of the audio engine (the module that starts with the radix-2 FFT and
  ends with \<open>runAudioProcessorTests\<close>). Samples are modelled as real numbers: the rounding
  of \<open>Float32Array\<close> stores and of double arithmetic is not part of the model. An
  \<open>AudioBuffer\<close> is a value (its channel arrays and its sample rate); the functions of the
  Web Audio host that the engine calls and that are not part of the repository (offline
  rendering of filter graphs, channel mixing, resampling, the random number generator) are
  parameters of the model.
\<close>

subsection \<open>Errors\<close>

datatype error =
  FFTSizeError              \<comment> \<open>\<open>throw new Error('FFT size must be a power of two')\<close>\<close>
  | InvalidTransformation   \<comment> \<open>\<open>throw new Error(`Invalid transformation type for morphing: ...`)\<close>\<close>

subsection \<open>JavaScript integer operators\<close>

text \<open>The operator \<open>&\<close> converts both operands with ToInt32 and yields a signed 32-bit value.\<close>

definition toInt32 :: "int \<Rightarrow> 32 word" where
  "toInt32 n = word_of_int n"

definition js_bitand :: "int \<Rightarrow> int \<Rightarrow> int" where
  "js_bitand a b = sint (toInt32 a AND toInt32 b)"

text \<open>\<open>Math.log2\<close> on the sizes that pass the guard of \<open>getFFT\<close> (powers of two), where it
  is the exponent.\<close>

fun log2size :: "nat \<Rightarrow> nat" where
  "log2size n = (if n < 2 then 0 else Suc (log2size (n div 2)))"

declare log2size.simps [simp del]

subsection \<open>FFT\<close>

definition bitReverseAt :: "nat \<Rightarrow> nat \<Rightarrow> nat" where
  "bitReverseAt l i =
     fold (\<lambda>j p. if (drop_bit j i) AND 1 \<noteq> 0 then p OR push_bit (l - 1 - j) 1 else p) [0..<l] 0"

definition bitReverse :: "nat \<Rightarrow> nat list" where
  "bitReverse sz = map (bitReverseAt (log2size sz)) [0..<sz]"

definition sinTable :: "nat \<Rightarrow> real list" where
  "sinTable sz = map (\<lambda>i. sin (pi * real i / real sz)) [0..<sz]"

definition cosTable :: "nat \<Rightarrow> real list" where
  "cosTable sz = map (\<lambda>i. cos (pi * real i / real sz)) [0..<sz]"

type_synonym spectrum = "real list \<times> real list"

text \<open>\<open>[a[i], a[j]] = [a[j], a[i]]\<close>\<close>

definition swap :: "nat \<Rightarrow> nat \<Rightarrow> real list \<Rightarrow> real list" where
  "swap i j xs = (xs[i := xs ! j])[j := xs ! i]"

definition permute_step :: "nat \<Rightarrow> nat \<Rightarrow> spectrum \<Rightarrow> spectrum" where
  "permute_step sz i st =
     (let j = bitReverse sz ! i in
      if j > i then (swap i j (fst st), swap i j (snd st)) else st)"

definition permute :: "nat \<Rightarrow> spectrum \<Rightarrow> spectrum" where
  "permute sz st = fold (permute_step sz) [0..<sz] st"

text \<open>The body of the innermost loop of the Cooley-Tukey stage.\<close>

definition butterfly :: "nat \<Rightarrow> bool \<Rightarrow> nat \<Rightarrow> nat \<Rightarrow> nat \<Rightarrow> spectrum \<Rightarrow> spectrum" where
  "butterfly sz invert len i j st =
     (let real = fst st; imag = snd st;
          halfLen = len div 2;
          tableStep = sz div len;
          k = j * tableStep;
          t_re = cosTable sz ! k;
          t_im = (if invert then - 1 else 1) * sinTable sz ! k;
          p_re = real ! (i + j + halfLen);
          p_im = imag ! (i + j + halfLen);
          u_re = real ! (i + j);
          u_im = imag ! (i + j);
          real1 = real[i + j := u_re + p_re * t_re - p_im * t_im];
          imag1 = imag[i + j := u_im + p_re * t_im + p_im * t_re];
          real2 = real1[i + j + halfLen := u_re - (p_re * t_re - p_im * t_im)];
          imag2 = imag1[i + j + halfLen := u_im - (p_re * t_im + p_im * t_re)]
      in (real2, imag2))"

text \<open>\<open>for (let i = 0; i < size; i += len)\<close>; \<open>len\<close> is at least 2 in every call.\<close>

function fft_blocks :: "nat \<Rightarrow> bool \<Rightarrow> nat \<Rightarrow> nat \<Rightarrow> spectrum \<Rightarrow> spectrum" where
  "fft_blocks sz invert len i st =
     (if i < sz \<and> 0 < len
      then fft_blocks sz invert len (i + len)
             (fold (butterfly sz invert len i) [0..<len div 2] st)
      else st)"
  by pat_completeness auto
termination
  by (relation "measure (\<lambda>(sz, invert, len, i, st). sz - i)") auto

declare fft_blocks.simps [simp del]

text \<open>\<open>for (let len = 2; len <= size; len <<= 1)\<close>\<close>

function fft_stages :: "nat \<Rightarrow> bool \<Rightarrow> nat \<Rightarrow> spectrum \<Rightarrow> spectrum" where
  "fft_stages sz invert len st =
     (if len \<le> sz \<and> 0 < len
      then fft_stages sz invert (2 * len) (fft_blocks sz invert len 0 st)
      else st)"
  by pat_completeness auto
termination
  by (relation "measure (\<lambda>(sz, invert, len, st). Suc sz - len)") auto

declare fft_stages.simps [simp del]

definition fft :: "nat \<Rightarrow> spectrum \<Rightarrow> bool \<Rightarrow> spectrum" where
  "fft sz st invert =
     (let st1 = fft_stages sz invert 2 (permute sz st) in
      if invert
      then (map (\<lambda>x. x / real sz) (fst st1), map (\<lambda>x. x / real sz) (snd st1))
      else st1)"

text \<open>The cache \<open>fftCache\<close> memoises the closure per size; the closure for a size is always
  the same function, so the model returns it directly.\<close>

definition getFFT :: "int \<Rightarrow> error + (spectrum \<Rightarrow> bool \<Rightarrow> spectrum)" where
  "getFFT sz =
     (if sz \<le> 0 \<or> js_bitand sz (sz - 1) \<noteq> 0 then Inl FFTSizeError
      else Inr (fft (nat sz)))"

subsection \<open>Audio buffers and parameters\<close>

text \<open>An \<open>AudioBuffer\<close> of the host: \<open>numberOfChannels\<close> channel arrays of \<open>length\<close> frames
  each, and a sample rate. The host only hands out buffers with at least one channel and at
  least one frame, every channel array having \<open>length\<close> entries (\<open>wf_buffer\<close>).\<close>

record AudioBuffer =
  channelData :: "real list list"
  bufferLength :: nat
  sampleRate :: real

definition numberOfChannels :: "AudioBuffer \<Rightarrow> nat" where
  "numberOfChannels b = length (channelData b)"

definition getChannelData :: "AudioBuffer \<Rightarrow> nat \<Rightarrow> real list" where
  "getChannelData b c = channelData b ! c"

definition wf_buffer :: "AudioBuffer \<Rightarrow> bool" where
  "wf_buffer b \<longleftrightarrow>
     0 < numberOfChannels b \<and> 0 < bufferLength b \<and> 0 < sampleRate b
     \<and> list_all (\<lambda>ch. length ch = bufferLength b) (channelData b)"

definition createBuffer :: "nat \<Rightarrow> nat \<Rightarrow> real \<Rightarrow> AudioBuffer" where
  "createBuffer n len rate =
     \<lparr>channelData = replicate n (replicate len 0), bufferLength = len, sampleRate = rate\<rparr>"

record TransformationParams =
  gateThreshold :: "real option"
  spectralMix :: "real option"
  transientSensitivity :: "real option"
  surfaceJitter :: "real option"
  numHarmonics :: "real option"
  harmonicQ :: "real option"
  interferenceFeedback :: "real option"
  interferenceMix :: "real option"
  numFormants :: "real option"
  formantQ :: "real option"
  formantMix :: "real option"
  ringModBaseFreq :: "real option"
  ringModRange :: "real option"
  ringModMix :: "real option"
  morphPosition :: "real option"

text \<open>\<open>const { key = d } = params\<close>\<close>

definition orDefault :: "'a option \<Rightarrow> 'a \<Rightarrow> 'a" where
  "orDefault v d = (case v of None \<Rightarrow> d | Some x \<Rightarrow> x)"

datatype TransformationType =
  AMPLITUDE | SPECTRAL | RHYTHMIC | CONVOLUTION | TIME_WARP | SURFACE_TRANSLATE
  | FOURIER_MASKING | HARMONIC_IMPRINT | INTERFERENCE_ECHOES | FORMANT_SHIFTING
  | DYNAMIC_RING_MOD | TRANSFORMATION_MORPH

subsection \<open>Amplitude envelope\<close>

text \<open>\<open>lastValue = smoothing * lastValue + (1.0 - smoothing) * absValue; outputData[i] = lastValue\<close>\<close>

fun onePole :: "real \<Rightarrow> real \<Rightarrow> real list \<Rightarrow> real list" where
  "onePole smoothing lastValue [] = []"
| "onePole smoothing lastValue (x # xs) =
     (let v = smoothing * lastValue + (1 - smoothing) * \<bar>x\<bar> in v # onePole smoothing v xs)"

definition maxVal :: "real list \<Rightarrow> real" where
  "maxVal outputData = fold (\<lambda>y m. if y > m then y else m) outputData 0"

definition normalizeEnvelope :: "real list \<Rightarrow> real list" where
  "normalizeEnvelope outputData =
     (let m = maxVal outputData in
      if m > 0 then map (\<lambda>y. y / m) outputData else outputData)"

definition envelopeChannel :: "real \<Rightarrow> real list \<Rightarrow> real list" where
  "envelopeChannel smoothing inputData = normalizeEnvelope (onePole smoothing 0 inputData)"

definition getAmplitudeEnvelope :: "AudioBuffer \<Rightarrow> real \<Rightarrow> AudioBuffer" where
  "getAmplitudeEnvelope buffer smoothing =
     \<lparr>channelData = map (envelopeChannel smoothing) (channelData buffer),
      bufferLength = bufferLength buffer, sampleRate = sampleRate buffer\<rparr>"

text \<open>The result buffer is created with the shape of the target and is silent; the loop
  writes the first \<open>min(targetData.length, envelopeData.length)\<close> frames of each channel.\<close>

definition applyEnvelopeToBuffer :: "AudioBuffer \<Rightarrow> AudioBuffer \<Rightarrow> AudioBuffer" where
  "applyEnvelopeToBuffer envelopeBuffer targetBuffer =
     \<lparr>channelData =
        map (\<lambda>channel.
               let targetData = getChannelData targetBuffer channel;
                   envelopeData = getChannelData envelopeBuffer
                                    (channel mod numberOfChannels envelopeBuffer);
                   len = min (length targetData) (length envelopeData)
               in map (\<lambda>i. if i < len then targetData ! i * envelopeData ! i else 0)
                      [0..<bufferLength targetBuffer])
            [0..<numberOfChannels targetBuffer],
      bufferLength = bufferLength targetBuffer, sampleRate = sampleRate targetBuffer\<rparr>"

definition applyAmplitudeMapping :: "AudioBuffer \<Rightarrow> AudioBuffer \<Rightarrow> AudioBuffer" where
  "applyAmplitudeMapping sourceBuffer targetBuffer =
     applyEnvelopeToBuffer (getAmplitudeEnvelope sourceBuffer 0.995) targetBuffer"

definition applyRhythmicGating ::
  "AudioBuffer \<Rightarrow> AudioBuffer \<Rightarrow> TransformationParams \<Rightarrow> AudioBuffer" where
  "applyRhythmicGating sourceBuffer targetBuffer params =
     (let threshold = orDefault (gateThreshold params) 0.2;
          sourceEnvelope = getAmplitudeEnvelope sourceBuffer 0.998;
          gateBuffer =
            \<lparr>channelData =
               map (map (\<lambda>e. if e > threshold then 1 else 0)) (channelData sourceEnvelope),
             bufferLength = bufferLength sourceEnvelope,
             sampleRate = sampleRate sourceEnvelope\<rparr>
      in applyEnvelopeToBuffer gateBuffer targetBuffer)"

subsection \<open>Transients\<close>

text \<open>\<open>for (let i = 0; i < data.length; i += chunkSize)\<close>: the RMS energy of each chunk of 512
  frames.\<close>

function chunkEnergies :: "real list \<Rightarrow> nat \<Rightarrow> real list" where
  "chunkEnergies data i =
     (if i < length data
      then (let endIdx = min (i + 512) (length data);
                sumOfSquares = fold (\<lambda>j acc. acc + data ! j * data ! j) [i..<endIdx] 0
            in sqrt (sumOfSquares / real (endIdx - i)) # chunkEnergies data (i + 512))
      else [])"
  by pat_completeness auto
termination
  by (relation "measure (\<lambda>(data, i). length data - i)") auto

declare chunkEnergies.simps [simp del]

text \<open>The body of the detection loop; the state is the list \<open>transients\<close> and
  \<open>lastTransient\<close>.\<close>

definition transientStep ::
  "real list \<Rightarrow> real \<Rightarrow> int \<Rightarrow> nat \<Rightarrow> nat list \<times> nat \<Rightarrow> nat list \<times> nat" where
  "transientStep energies threshold minSeparation i st =
     (if energies ! i > energies ! (i - 1) * threshold
      then (let sampleIndex = i * 512 in
            if int sampleIndex - int (snd st) > minSeparation
            then (fst st @ [sampleIndex], sampleIndex)
            else st)
      else st)"

definition detectTransients :: "AudioBuffer \<Rightarrow> real \<Rightarrow> real \<Rightarrow> nat list" where
  "detectTransients buffer threshold minSeparationMs =
     (let data = getChannelData buffer 0;
          minSeparation = \<lfloor>sampleRate buffer * (minSeparationMs / 1000)\<rfloor>;
          energies = chunkEnergies data 0;
          transients =
            fst (fold (transientStep energies threshold minSeparation)
                   [1..<length energies] ([0], 0))
      in if int (last transients) < int (length data) - 1
         then transients @ [length data - 1]
         else transients)"

subsection \<open>Spectral peaks\<close>

record bin =
  freq :: real
  mag :: real

text \<open>\<open>Array.prototype.slice(0, end)\<close>: \<open>end\<close> is truncated towards zero, and a negative \<open>end\<close>
  counts from the end of the array.\<close>

definition js_slice0 :: "real \<Rightarrow> 'a list \<Rightarrow> 'a list" where
  "js_slice0 e xs =
     (let k = (if e < 0 then \<lceil>e\<rceil> else \<lfloor>e\<rfloor>) in
      if k < 0 then take (nat (int (length xs) + k)) xs else take (nat k) xs)"

text \<open>\<open>real = new Float32Array(fftSize).fill(0); real.set(chunk)\<close>, where \<open>chunk\<close> is the first
  \<open>fftSize\<close> samples of channel 0, or all of them when there are fewer.\<close>

definition loadChunk :: "nat \<Rightarrow> real list \<Rightarrow> real list" where
  "loadChunk fftSize data =
     (let chunk = (if length data > fftSize then take fftSize data else data)
      in chunk @ drop (length chunk) (replicate fftSize 0))"

text \<open>The loop that collects the local maxima of the magnitudes.\<close>

definition findPeaks :: "bin list \<Rightarrow> bin list" where
  "findPeaks magnitudes =
     map (\<lambda>i. magnitudes ! i)
       (filter (\<lambda>i. mag (magnitudes ! i) > mag (magnitudes ! (i - 1))
                    \<and> mag (magnitudes ! i) > mag (magnitudes ! (i + 1)))
          [1..<length magnitudes - 1])"

text \<open>\<open>peaks.sort((a, b) => b.mag - a.mag).slice(0, n).map(p => p.freq)\<close>; the sort is stable.\<close>

definition topFrequencies :: "real \<Rightarrow> bin list \<Rightarrow> real list" where
  "topFrequencies n peaks = map freq (js_slice0 n (sort_key (\<lambda>p. - mag p) peaks))"

definition detectHarmonics :: "AudioBuffer \<Rightarrow> real \<Rightarrow> real \<Rightarrow> error + real list" where
  "detectHarmonics buffer n rate =
     (case getFFT 8192 of
        Inl e \<Rightarrow> Inl e
      | Inr fft8192 \<Rightarrow>
          (let data = getChannelData buffer 0;
               spec = fft8192 (loadChunk 8192 data, replicate 8192 0) False;
               magnitudes =
                 map (\<lambda>i. \<lparr>freq = real i * rate / 8192,
                           mag = sqrt ((fst spec ! i)\<^sup>2 + (snd spec ! i)\<^sup>2)\<rparr>)
                   [1..<8192 div 2]
           in Inr (topFrequencies n (findPeaks magnitudes))))"

definition detectFormants :: "AudioBuffer \<Rightarrow> real \<Rightarrow> real \<Rightarrow> error + real list" where
  "detectFormants buffer n rate =
     (case getFFT 8192 of
        Inl e \<Rightarrow> Inl e
      | Inr fft8192 \<Rightarrow>
          (let data = getChannelData buffer 0;
               spec = fft8192 (loadChunk 8192 data, replicate 8192 0) False;
               minFreq = 300;
               maxFreq = 5000;
               magnitudes =
                 map (\<lambda>i. \<lparr>freq = real i * rate / 8192,
                           mag = sqrt ((fst spec ! i)\<^sup>2 + (snd spec ! i)\<^sup>2)\<rparr>)
                   (filter (\<lambda>i. real i * rate / 8192 \<ge> minFreq \<and> real i * rate / 8192 \<le> maxFreq)
                      [1..<8192 div 2])
           in Inr (topFrequencies n (findPeaks magnitudes))))"

subsection \<open>The Web Audio host\<close>

text \<open>
  Several operators build a graph of host nodes (buffer sources, gains, biquad filters, a
  convolver, a delay line) in an \<open>OfflineAudioContext\<close> and return what the host renders. The
  host is not part of the repository: each such rendering is a parameter of the model, applied
  to the data the operator hands to the host.
\<close>

record host =
  renderSpectralShaping :: "AudioBuffer \<Rightarrow> AudioBuffer \<Rightarrow> real \<Rightarrow> AudioBuffer"
    \<comment> \<open>source, target, \<open>spectralMix\<close>\<close>
  renderConvolver :: "AudioBuffer \<Rightarrow> AudioBuffer \<Rightarrow> nat \<Rightarrow> AudioBuffer"
    \<comment> \<open>impulse response, target, length of the context\<close>
  renderSegments :: "AudioBuffer \<Rightarrow> nat \<Rightarrow> (real \<times> real \<times> real \<times> real) list \<Rightarrow> AudioBuffer"
    \<comment> \<open>target, length of the context, and per segment: playback rate, start time, offset,
        duration\<close>
  renderHarmonicImprint :: "AudioBuffer \<Rightarrow> real list \<Rightarrow> real \<Rightarrow> AudioBuffer"
    \<comment> \<open>target, frequencies of the peaking filters (gain 15 dB), \<open>Q\<close>\<close>
  renderEchoes :: "AudioBuffer \<Rightarrow> nat \<Rightarrow> real list \<Rightarrow> real \<Rightarrow> real \<Rightarrow> AudioBuffer"
    \<comment> \<open>target, length of the context, trigger times, feedback, mix\<close>
  renderFormantShift :: "AudioBuffer \<Rightarrow> real list \<Rightarrow> real \<Rightarrow> real \<Rightarrow> AudioBuffer"
    \<comment> \<open>target, frequencies of the peaking filters (gain 18 dB), \<open>Q\<close>, mix\<close>
  conformChannels :: "nat \<Rightarrow> real \<Rightarrow> AudioBuffer \<Rightarrow> real list list"
    \<comment> \<open>the channels of a buffer as a context with the given channel count and sample rate
        plays them, when they differ from the buffer's own: up- or down-mixed and resampled\<close>

text \<open>\<open>Math.random\<close>: the numbers that the coming calls return, in order.\<close>

type_synonym rng = "nat \<Rightarrow> real"

subsection \<open>Operators rendered by the host\<close>

definition applySpectralShaping ::
  "host \<Rightarrow> AudioBuffer \<Rightarrow> AudioBuffer \<Rightarrow> TransformationParams \<Rightarrow> AudioBuffer" where
  "applySpectralShaping h sourceBuffer targetBuffer params =
     renderSpectralShaping h sourceBuffer targetBuffer (orDefault (spectralMix params) 1)"

text \<open>\<open>trimSilence\<close>: the first frame of channel 0 above the threshold, 0 when there is none.\<close>

definition firstSample :: "real \<Rightarrow> real list \<Rightarrow> nat" where
  "firstSample threshold data =
     (case find (\<lambda>i. \<bar>data ! i\<bar> > threshold) [0..<length data] of
        None \<Rightarrow> 0 | Some i \<Rightarrow> i)"

definition trimSilence :: "AudioBuffer \<Rightarrow> real \<Rightarrow> AudioBuffer" where
  "trimSilence buffer threshold =
     (let first = firstSample threshold (getChannelData buffer 0) in
      if first = 0 then buffer
      else \<lparr>channelData = map (drop first) (channelData buffer),
            bufferLength = bufferLength buffer - first,
            sampleRate = sampleRate buffer\<rparr>)"

definition applyConvolution :: "host \<Rightarrow> AudioBuffer \<Rightarrow> AudioBuffer \<Rightarrow> AudioBuffer" where
  "applyConvolution h sourceBuffer targetBuffer =
     (let newLength = bufferLength sourceBuffer + bufferLength targetBuffer - 1
      in trimSilence (renderConvolver h sourceBuffer targetBuffer newLength) 0.005)"

text \<open>The second loop of \<open>applyTimeScaleWarping\<close>: the state is the list of scheduled segments
  and \<open>currentTime\<close>; a segment shorter than 10 ms on either side is skipped.\<close>

definition warpStep ::
  "AudioBuffer \<Rightarrow> AudioBuffer \<Rightarrow> nat list \<Rightarrow> nat list \<Rightarrow> nat
   \<Rightarrow> (real \<times> real \<times> real \<times> real) list \<times> real \<Rightarrow> (real \<times> real \<times> real \<times> real) list \<times> real" where
  "warpStep sourceBuffer targetBuffer sourceTransients targetTransients i st =
     (let sourceDuration =
            (real (sourceTransients ! (i + 1)) - real (sourceTransients ! i))
              / sampleRate sourceBuffer;
          targetSegmentStart = targetTransients ! i;
          targetDuration =
            (real (targetTransients ! (i + 1)) - real targetSegmentStart)
              / sampleRate targetBuffer
      in if targetDuration < 0.01 \<or> sourceDuration < 0.01 then st
         else (fst st @ [(targetDuration / sourceDuration, snd st,
                          real targetSegmentStart / sampleRate targetBuffer, targetDuration)],
               snd st + sourceDuration))"

definition applyTimeScaleWarping ::
  "host \<Rightarrow> AudioBuffer \<Rightarrow> AudioBuffer \<Rightarrow> TransformationParams \<Rightarrow> AudioBuffer" where
  "applyTimeScaleWarping h sourceBuffer targetBuffer params =
     (let sensitivity = orDefault (transientSensitivity params) 1.8;
          sourceTransients = detectTransients sourceBuffer sensitivity 50;
          targetTransients = detectTransients targetBuffer sensitivity 50;
          numSegments = int (min (length sourceTransients) (length targetTransients)) - 1
      in if numSegments \<le> 0 then targetBuffer
         else
           (let totalDuration =
                  fold (\<lambda>i total. total
                          + (real (sourceTransients ! (i + 1)) - real (sourceTransients ! i))
                              / sampleRate sourceBuffer)
                    [0..<nat numSegments] 0;
                segments =
                  fst (fold (warpStep sourceBuffer targetBuffer sourceTransients targetTransients)
                         [0..<nat numSegments] ([], 0))
            in renderSegments h targetBuffer
                 (nat \<lceil>totalDuration * sampleRate targetBuffer\<rceil>) segments))"

definition applyHarmonicImprinting ::
  "host \<Rightarrow> AudioBuffer \<Rightarrow> AudioBuffer \<Rightarrow> TransformationParams \<Rightarrow> error + AudioBuffer" where
  "applyHarmonicImprinting h sourceBuffer targetBuffer params =
     (case detectHarmonics sourceBuffer (orDefault (numHarmonics params) 12)
             (sampleRate targetBuffer) of
        Inl e \<Rightarrow> Inl e
      | Inr harmonics \<Rightarrow>
          if length harmonics = 0 then Inr targetBuffer
          else Inr (renderHarmonicImprint h targetBuffer
                      (filter (\<lambda>f. f > 0 \<and> f < sampleRate targetBuffer / 2) harmonics)
                      (orDefault (harmonicQ params) 30)))"

definition applyInterferenceEchoes ::
  "host \<Rightarrow> AudioBuffer \<Rightarrow> AudioBuffer \<Rightarrow> TransformationParams \<Rightarrow> AudioBuffer" where
  "applyInterferenceEchoes h sourceBuffer targetBuffer params =
     (let sourceTransients = detectTransients sourceBuffer 1.8 50
      in if length sourceTransients \<le> 1 then targetBuffer
         else renderEchoes h targetBuffer
                (nat \<lfloor>real (bufferLength targetBuffer) + sampleRate targetBuffer * 4\<rfloor>)
                (map (\<lambda>sampleIndex. real sampleIndex / sampleRate sourceBuffer) sourceTransients)
                (orDefault (interferenceFeedback params) 0.5)
                (orDefault (interferenceMix params) 0.5))"

definition applyFormantShifting ::
  "host \<Rightarrow> AudioBuffer \<Rightarrow> AudioBuffer \<Rightarrow> TransformationParams \<Rightarrow> error + AudioBuffer" where
  "applyFormantShifting h sourceBuffer targetBuffer params =
     (case detectFormants sourceBuffer (orDefault (numFormants params) 4)
             (sampleRate targetBuffer) of
        Inl e \<Rightarrow> Inl e
      | Inr formants \<Rightarrow>
          if length formants = 0 then Inr targetBuffer
          else Inr (renderFormantShift h targetBuffer
                      (filter (\<lambda>f. f > 0 \<and> f < sampleRate targetBuffer / 2) formants)
                      (orDefault (formantQ params) 20)
                      (orDefault (formantMix params) 0.7)))"

subsection \<open>Operators computed sample by sample\<close>

text \<open>\<open>Math.round\<close> rounds to the nearest integer, a tie towards \<open>+\<infinity>\<close>.\<close>

definition js_round :: "real \<Rightarrow> int" where
  "js_round x = \<lfloor>x + 1 / 2\<rfloor>"

text \<open>The body of the loop of \<open>applySurfaceTranslationMapping\<close>; \<open>r\<close> is the value that
  \<open>Math.random()\<close> returns in this iteration.\<close>

definition surfaceSample :: "real list \<Rightarrow> real \<Rightarrow> real \<Rightarrow> real \<Rightarrow> real" where
  "surfaceSample sortedTargetData jitterAmount sourceSample r =
     (let sortedLength = int (length sortedTargetData);
          normalizedIndex = (sourceSample + 1) / 2;
          baseTargetIndex = \<lfloor>normalizedIndex * real_of_int (sortedLength - 1)\<rfloor>;
          randomOffset = (r - 0.5) * jitterAmount;
          finalIndex = js_round (real_of_int baseTargetIndex + randomOffset);
          clampedIndex = max 0 (min (sortedLength - 1) finalIndex)
      in sortedTargetData ! nat clampedIndex)"

text \<open>The result is a fresh buffer of one channel with the length and the sample rate of the
  source; the loop writes one frame per sample of channel 0 of the source and consumes one
  random number per frame.\<close>

definition applySurfaceTranslationMapping ::
  "rng \<Rightarrow> AudioBuffer \<Rightarrow> AudioBuffer \<Rightarrow> TransformationParams \<Rightarrow> AudioBuffer \<times> rng" where
  "applySurfaceTranslationMapping random sourceBuffer targetBuffer params =
     (let jitter = orDefault (surfaceJitter params) 0;
          sourceData = getChannelData sourceBuffer 0;
          targetData = getChannelData targetBuffer 0;
          sortedTargetData = sort targetData;
          sortedLength = length sortedTargetData;
          jitterAmount = jitter * real sortedLength * 0.05;
          resultData =
            map (\<lambda>i. if i < length sourceData
                      then surfaceSample sortedTargetData jitterAmount (sourceData ! i) (random i)
                      else 0)
              [0..<bufferLength sourceBuffer]
      in (\<lparr>channelData = [resultData], bufferLength = bufferLength sourceBuffer,
           sampleRate = sampleRate sourceBuffer\<rparr>,
          \<lambda>k. random (k + length sourceData)))"

text \<open>\<open>Math.atan2(y, x)\<close>\<close>

definition atan2 :: "real \<Rightarrow> real \<Rightarrow> real" where
  "atan2 y x = Arg (Complex x y)"

definition fftWindow :: "nat \<Rightarrow> real list" where
  "fftWindow fftSize =
     map (\<lambda>i. 0.5 * (1 - cos (2 * pi * real i / real (fftSize - 1)))) [0..<fftSize]"

text \<open>One frame of \<open>applyFourierMasking\<close>, from the windowing of both signals to the inverse
  transform; the value is \<open>newReal\<close> after the inverse transform.\<close>

definition maskFrame ::
  "(spectrum \<Rightarrow> bool \<Rightarrow> spectrum) \<Rightarrow> nat \<Rightarrow> real list \<Rightarrow> real list \<Rightarrow> nat \<Rightarrow> real list" where
  "maskFrame fftN fftSize sourceData targetData i =
     (let sourceReal = map (\<lambda>j. sourceData ! (i + j) * fftWindow fftSize ! j) [0..<fftSize];
          targetReal = map (\<lambda>j. targetData ! (i + j) * fftWindow fftSize ! j) [0..<fftSize];
          sourceSpec = fftN (sourceReal, replicate fftSize 0) False;
          targetSpec = fftN (targetReal, replicate fftSize 0) False;
          newReal =
            map (\<lambda>j. sqrt ((fst sourceSpec ! j)\<^sup>2 + (snd sourceSpec ! j)\<^sup>2)
                      * cos (atan2 (snd targetSpec ! j) (fst targetSpec ! j))) [0..<fftSize];
          newImag =
            map (\<lambda>j. sqrt ((fst sourceSpec ! j)\<^sup>2 + (snd sourceSpec ! j)\<^sup>2)
                      * sin (atan2 (snd targetSpec ! j) (fst targetSpec ! j))) [0..<fftSize]
      in fst (fftN (newReal, newImag) True))"

text \<open>\<open>for (let i = 0; (i + fftSize) <= length; i += hopSize)\<close> with the overlap-add into
  \<open>resultData\<close>.\<close>

function maskFrames ::
  "(spectrum \<Rightarrow> bool \<Rightarrow> spectrum) \<Rightarrow> nat \<Rightarrow> nat \<Rightarrow> nat \<Rightarrow> real list \<Rightarrow> real list \<Rightarrow> nat
   \<Rightarrow> real list \<Rightarrow> real list" where
  "maskFrames fftN fftSize hopSize len sourceData targetData i resultData =
     (if i + fftSize \<le> len \<and> 0 < hopSize
      then maskFrames fftN fftSize hopSize len sourceData targetData (i + hopSize)
             (fold (\<lambda>j res. res[i + j := res ! (i + j)
                                + maskFrame fftN fftSize sourceData targetData i ! j
                                  * fftWindow fftSize ! j])
                [0..<fftSize] resultData)
      else resultData)"
  by pat_completeness auto
termination
  by (relation "measure (\<lambda>(fftN, fftSize, hopSize, len, sourceData, targetData, i, resultData).
        Suc len - i)") auto

declare maskFrames.simps [simp del]

definition applyFourierMasking :: "AudioBuffer \<Rightarrow> AudioBuffer \<Rightarrow> error + AudioBuffer" where
  "applyFourierMasking sourceBuffer targetBuffer =
     (let fftSize = 2048; hopSize = fftSize div 4 in
      case getFFT (int fftSize) of
        Inl e \<Rightarrow> Inl e
      | Inr fftN \<Rightarrow>
          (let len = min (bufferLength sourceBuffer) (bufferLength targetBuffer);
               sourceData = getChannelData sourceBuffer 0;
               targetData = getChannelData targetBuffer 0;
               resultData =
                 maskFrames fftN fftSize hopSize len sourceData targetData 0 (replicate len 0)
           in Inr \<lparr>channelData = [resultData], bufferLength = len,
                   sampleRate = sampleRate sourceBuffer\<rparr>))"

text \<open>The body of the inner loop of \<open>applyDynamicRingModulation\<close>; the state is \<open>phase\<close>, which
  runs on from one channel to the next, and the frames written so far.\<close>

definition ringModStep ::
  "real \<Rightarrow> real \<Rightarrow> real \<Rightarrow> real \<Rightarrow> real list \<Rightarrow> real list \<Rightarrow> nat
   \<Rightarrow> real \<times> real list \<Rightarrow> real \<times> real list" where
  "ringModStep baseFreq freqRange mix sr sourceEnvData targetData i st =
     (let envValue = (if i < length sourceEnvData then sourceEnvData ! i else 0);
          modFreq = baseFreq + envValue * freqRange;
          modSample = sin (fst st);
          phase1 = fst st + 2 * pi * modFreq / sr;
          phase2 = (if phase1 > 2 * pi then phase1 - 2 * pi else phase1);
          wetSample = targetData ! i * modSample;
          drySample = targetData ! i
      in (phase2, snd st @ [wetSample * mix + drySample * (1 - mix)]))"

definition applyDynamicRingModulation ::
  "AudioBuffer \<Rightarrow> AudioBuffer \<Rightarrow> TransformationParams \<Rightarrow> AudioBuffer" where
  "applyDynamicRingModulation sourceBuffer targetBuffer params =
     (let baseFreq = orDefault (ringModBaseFreq params) 100;
          freqRange = orDefault (ringModRange params) 1000;
          mix = orDefault (ringModMix params) 0.5;
          sourceEnvelope = getAmplitudeEnvelope sourceBuffer 0.99;
          sourceEnvData = getChannelData sourceEnvelope 0;
          sr = sampleRate targetBuffer;
          rendered =
            fold (\<lambda>c st.
                    let targetData = getChannelData targetBuffer c;
                        ch = fold (ringModStep baseFreq freqRange mix sr sourceEnvData targetData)
                               [0..<bufferLength targetBuffer] (fst st, [])
                    in (fst ch, snd st @ [snd ch]))
              [0..<numberOfChannels targetBuffer] (0, [])
      in \<lparr>channelData = snd rendered, bufferLength = bufferLength targetBuffer,
          sampleRate = sampleRate targetBuffer\<rparr>)"

subsection \<open>Morphing\<close>

text \<open>The local function \<open>run\<close> of \<open>applyTransformationMorph\<close>.\<close>

definition run ::
  "host \<Rightarrow> rng \<Rightarrow> AudioBuffer \<Rightarrow> AudioBuffer \<Rightarrow> TransformationParams \<Rightarrow> TransformationType
   \<Rightarrow> error + AudioBuffer \<times> rng" where
  "run h random sourceBuffer targetBuffer params type =
     (case type of
        AMPLITUDE \<Rightarrow> Inr (applyAmplitudeMapping sourceBuffer targetBuffer, random)
      | RHYTHMIC \<Rightarrow> Inr (applyRhythmicGating sourceBuffer targetBuffer params, random)
      | SPECTRAL \<Rightarrow> Inr (applySpectralShaping h sourceBuffer targetBuffer params, random)
      | CONVOLUTION \<Rightarrow> Inr (applyConvolution h sourceBuffer targetBuffer, random)
      | TIME_WARP \<Rightarrow> Inr (applyTimeScaleWarping h sourceBuffer targetBuffer params, random)
      | SURFACE_TRANSLATE \<Rightarrow>
          Inr (applySurfaceTranslationMapping random sourceBuffer targetBuffer params)
      | FOURIER_MASKING \<Rightarrow>
          (case applyFourierMasking sourceBuffer targetBuffer of
             Inl e \<Rightarrow> Inl e | Inr r \<Rightarrow> Inr (r, random))
      | HARMONIC_IMPRINT \<Rightarrow>
          (case applyHarmonicImprinting h sourceBuffer targetBuffer params of
             Inl e \<Rightarrow> Inl e | Inr r \<Rightarrow> Inr (r, random))
      | INTERFERENCE_ECHOES \<Rightarrow>
          Inr (applyInterferenceEchoes h sourceBuffer targetBuffer params, random)
      | FORMANT_SHIFTING \<Rightarrow>
          (case applyFormantShifting h sourceBuffer targetBuffer params of
             Inl e \<Rightarrow> Inl e | Inr r \<Rightarrow> Inr (r, random))
      | DYNAMIC_RING_MOD \<Rightarrow>
          Inr (applyDynamicRingModulation sourceBuffer targetBuffer params, random)
      | TRANSFORMATION_MORPH \<Rightarrow> Inl InvalidTransformation)"

text \<open>
  The graph that \<open>applyTransformationMorph\<close> renders: two buffer sources, each through a gain
  node, both connected to the destination of an offline context of \<open>numChannels\<close> channels,
  \<open>length\<close> frames and \<open>sampleRate\<close>. Following the Web Audio specification, the destination
  sums its inputs, a gain node multiplies every sample by its gain, and a buffer source that
  has played its buffer to the end is silent. A buffer whose channel count and sample rate are
  those of the context is played as it is; otherwise the host mixes and resamples it.
\<close>

definition played :: "host \<Rightarrow> nat \<Rightarrow> real \<Rightarrow> AudioBuffer \<Rightarrow> real list list" where
  "played h numChannels rate buffer =
     (if numberOfChannels buffer = numChannels \<and> sampleRate buffer = rate
      then channelData buffer
      else conformChannels h numChannels rate buffer)"

definition sampleAt :: "real list list \<Rightarrow> nat \<Rightarrow> nat \<Rightarrow> real" where
  "sampleAt chs c i = (if c < length chs \<and> i < length (chs ! c) then chs ! c ! i else 0)"

definition renderCrossfade ::
  "host \<Rightarrow> nat \<Rightarrow> nat \<Rightarrow> real \<Rightarrow> AudioBuffer \<Rightarrow> real \<Rightarrow> AudioBuffer \<Rightarrow> real \<Rightarrow> AudioBuffer" where
  "renderCrossfade h numChannels len rate resultA gainA resultB gainB =
     \<lparr>channelData =
        map (\<lambda>c. map (\<lambda>i. gainA * sampleAt (played h numChannels rate resultA) c i
                          + gainB * sampleAt (played h numChannels rate resultB) c i)
                   [0..<len])
          [0..<numChannels],
      bufferLength = len, sampleRate = rate\<rparr>"

text \<open>\<open>Promise.all([run(transformA), run(transformB)])\<close> starts \<open>run(transformA)\<close> first; a
  rejection of either rejects the morph.\<close>

definition applyTransformationMorph ::
  "host \<Rightarrow> rng \<Rightarrow> AudioBuffer \<Rightarrow> AudioBuffer \<Rightarrow> TransformationType \<Rightarrow> TransformationType
   \<Rightarrow> TransformationParams \<Rightarrow> error + AudioBuffer \<times> rng" where
  "applyTransformationMorph h random sourceBuffer targetBuffer transformA transformB params =
     (case run h random sourceBuffer targetBuffer params transformA of
        Inl e \<Rightarrow> Inl e
      | Inr (resultA, random1) \<Rightarrow>
          (case run h random1 sourceBuffer targetBuffer params transformB of
             Inl e \<Rightarrow> Inl e
           | Inr (resultB, random2) \<Rightarrow>
               (let position = orDefault (morphPosition params) 0.5;
                    gainA = 1 - position;
                    gainB = position;
                    len = max (bufferLength resultA) (bufferLength resultB);
                    numChannels = min (numberOfChannels resultA) (numberOfChannels resultB);
                    rate = sampleRate resultA
                in Inr (renderCrossfade h numChannels len rate resultA gainA resultB gainB,
                        random2))))"

subsection \<open>The engine on a heap of arrays\<close>

text \<open>
  For the frame condition the channel arrays are objects that can be shared and written in
  place. The heap is the list of all \<open>Float32Array\<close>s allocated so far, a reference is an index
  into it, and an \<open>AudioBuffer\<close> holds references to its channel arrays. Every function below is
  the function of the same name above, with its reads, allocations and writes made explicit; a
  loop that fills an array it has just allocated is a single write of the array. The host reads
  the buffers it is given and returns its rendering in arrays of its own.
\<close>

type_synonym heap = "real list list"

type_synonym ref = nat

record AudioBufferRef =
  channelRefs :: "ref list"
  lengthOf :: nat
  sampleRateOf :: real

text \<open>\<open>new Float32Array(...)\<close> with the given contents.\<close>

definition newFloat32Array :: "real list \<Rightarrow> heap \<Rightarrow> ref \<times> heap" where
  "newFloat32Array xs hp = (length hp, hp @ [xs])"

definition createBuffer_h :: "nat \<Rightarrow> nat \<Rightarrow> real \<Rightarrow> heap \<Rightarrow> AudioBufferRef \<times> heap" where
  "createBuffer_h n len rate hp =
     (\<lparr>channelRefs = [length hp..<length hp + n], lengthOf = len, sampleRateOf = rate\<rparr>,
      hp @ replicate n (replicate len 0))"

text \<open>The buffer as a value: what its channel arrays hold in the given heap.\<close>

definition contents :: "heap \<Rightarrow> AudioBufferRef \<Rightarrow> AudioBuffer" where
  "contents hp b =
     \<lparr>channelData = map (\<lambda>r. hp ! r) (channelRefs b), bufferLength = lengthOf b,
      sampleRate = sampleRateOf b\<rparr>"

text \<open>A buffer that the host returns from a rendering: new arrays that hold the rendering.\<close>

definition hostBuffer :: "AudioBuffer \<Rightarrow> heap \<Rightarrow> AudioBufferRef \<times> heap" where
  "hostBuffer b hp =
     (\<lparr>channelRefs = [length hp..<length hp + numberOfChannels b], lengthOf = bufferLength b,
       sampleRateOf = sampleRate b\<rparr>,
      hp @ channelData b)"

text \<open>A call \<open>fft(real, imag, invert)\<close> of a closure returned by \<open>getFFT\<close>: both arrays are
  overwritten.\<close>

definition callFFT_h :: "(spectrum \<Rightarrow> bool \<Rightarrow> spectrum) \<Rightarrow> ref \<Rightarrow> ref \<Rightarrow> bool \<Rightarrow> heap \<Rightarrow> heap" where
  "callFFT_h fftN realRef imagRef invert hp =
     (let spec = fftN (hp ! realRef, hp ! imagRef) invert
      in (hp[realRef := fst spec])[imagRef := snd spec])"

definition getAmplitudeEnvelope_h :: "AudioBufferRef \<Rightarrow> real \<Rightarrow> heap \<Rightarrow> AudioBufferRef \<times> heap" where
  "getAmplitudeEnvelope_h buffer smoothing hp =
     (case createBuffer_h (length (channelRefs buffer)) (lengthOf buffer) (sampleRateOf buffer) hp of
        (result, hp1) \<Rightarrow>
          (result,
           fold (\<lambda>c h. h[channelRefs result ! c :=
                          envelopeChannel smoothing (h ! (channelRefs buffer ! c))])
             [0..<length (channelRefs buffer)] hp1))"

definition applyEnvelopeToBuffer_h ::
  "AudioBufferRef \<Rightarrow> AudioBufferRef \<Rightarrow> heap \<Rightarrow> AudioBufferRef \<times> heap" where
  "applyEnvelopeToBuffer_h envelopeBuffer targetBuffer hp =
     (case createBuffer_h (length (channelRefs targetBuffer)) (lengthOf targetBuffer)
             (sampleRateOf targetBuffer) hp of
        (result, hp1) \<Rightarrow>
          (result,
           fold (\<lambda>channel h.
                   let targetData = h ! (channelRefs targetBuffer ! channel);
                       envelopeData = h ! (channelRefs envelopeBuffer
                                            ! (channel mod length (channelRefs envelopeBuffer)));
                       len = min (length targetData) (length envelopeData)
                   in h[channelRefs result ! channel :=
                          map (\<lambda>i. if i < len then targetData ! i * envelopeData ! i else 0)
                            [0..<lengthOf targetBuffer]])
             [0..<length (channelRefs targetBuffer)] hp1))"

definition applyAmplitudeMapping_h ::
  "AudioBufferRef \<Rightarrow> AudioBufferRef \<Rightarrow> heap \<Rightarrow> AudioBufferRef \<times> heap" where
  "applyAmplitudeMapping_h sourceBuffer targetBuffer hp =
     (case getAmplitudeEnvelope_h sourceBuffer 0.995 hp of
        (sourceEnvelope, hp1) \<Rightarrow> applyEnvelopeToBuffer_h sourceEnvelope targetBuffer hp1)"

definition applyRhythmicGating_h ::
  "AudioBufferRef \<Rightarrow> AudioBufferRef \<Rightarrow> TransformationParams \<Rightarrow> heap \<Rightarrow> AudioBufferRef \<times> heap" where
  "applyRhythmicGating_h sourceBuffer targetBuffer params hp =
     (let threshold = orDefault (gateThreshold params) 0.2 in
      case getAmplitudeEnvelope_h sourceBuffer 0.998 hp of
        (sourceEnvelope, hp1) \<Rightarrow>
          (case createBuffer_h (length (channelRefs sourceEnvelope)) (lengthOf sourceEnvelope)
                  (sampleRateOf sourceEnvelope) hp1 of
             (gateBuffer, hp2) \<Rightarrow>
               applyEnvelopeToBuffer_h gateBuffer targetBuffer
                 (fold (\<lambda>channel h.
                          h[channelRefs gateBuffer ! channel :=
                              map (\<lambda>e. if e > threshold then 1 else 0)
                                (h ! (channelRefs sourceEnvelope ! channel))])
                    [0..<length (channelRefs sourceEnvelope)] hp2)))"

text \<open>\<open>new Float32Array(targetData).sort()\<close> copies the channel of the target and sorts the
  copy in place.\<close>

definition applySurfaceTranslationMapping_h ::
  "rng \<Rightarrow> AudioBufferRef \<Rightarrow> AudioBufferRef \<Rightarrow> TransformationParams \<Rightarrow> heap
   \<Rightarrow> (AudioBufferRef \<times> rng) \<times> heap" where
  "applySurfaceTranslationMapping_h random sourceBuffer targetBuffer params hp =
     (let jitter = orDefault (surfaceJitter params) 0;
          sourceRef = channelRefs sourceBuffer ! 0;
          targetRef = channelRefs targetBuffer ! 0
      in case newFloat32Array (hp ! targetRef) hp of
           (sortedRef, hp1) \<Rightarrow>
             (let hp2 = hp1[sortedRef := sort (hp1 ! sortedRef)] in
              case createBuffer_h 1 (lengthOf sourceBuffer) (sampleRateOf sourceBuffer) hp2 of
                (result, hp3) \<Rightarrow>
                  (let sourceData = hp3 ! sourceRef;
                       sortedTargetData = hp3 ! sortedRef;
                       jitterAmount = jitter * real (length sortedTargetData) * 0.05;
                       resultData =
                         map (\<lambda>i. if i < length sourceData
                                   then surfaceSample sortedTargetData jitterAmount
                                          (sourceData ! i) (random i)
                                   else 0)
                           [0..<lengthOf sourceBuffer]
                   in ((result, \<lambda>k. random (k + length sourceData)),
                       hp3[channelRefs result ! 0 := resultData]))))"

text \<open>The part of \<open>detectHarmonics\<close> and \<open>detectFormants\<close> up to the forward transform: the
  chunk is a copy (\<open>data.slice(0, fftSize)\<close>) when the channel is longer than the transform,
  and the channel array itself otherwise; the transform runs on the new arrays \<open>real\<close> and
  \<open>imag\<close>. The value is the pair of references to \<open>real\<close> and \<open>imag\<close>.\<close>

definition spectrumOfChunk_h ::
  "(spectrum \<Rightarrow> bool \<Rightarrow> spectrum) \<Rightarrow> nat \<Rightarrow> AudioBufferRef \<Rightarrow> heap \<Rightarrow> (ref \<times> ref) \<times> heap" where
  "spectrumOfChunk_h fftN fftSize buffer hp =
     (let dataRef = channelRefs buffer ! 0 in
      case (if length (hp ! dataRef) > fftSize
            then newFloat32Array (take fftSize (hp ! dataRef)) hp
            else (dataRef, hp)) of
        (chunkRef, hp1) \<Rightarrow>
          (case newFloat32Array (replicate fftSize 0) hp1 of
             (realRef, hp2) \<Rightarrow>
               (let hp3 = hp2[realRef := hp2 ! chunkRef
                                          @ drop (length (hp2 ! chunkRef)) (hp2 ! realRef)] in
                case newFloat32Array (replicate fftSize 0) hp3 of
                  (imagRef, hp4) \<Rightarrow>
                    ((realRef, imagRef), callFFT_h fftN realRef imagRef False hp4))))"

definition detectHarmonics_h ::
  "AudioBufferRef \<Rightarrow> real \<Rightarrow> real \<Rightarrow> heap \<Rightarrow> (error + real list) \<times> heap" where
  "detectHarmonics_h buffer n rate hp =
     (case getFFT 8192 of
        Inl e \<Rightarrow> (Inl e, hp)
      | Inr fft8192 \<Rightarrow>
          (case spectrumOfChunk_h fft8192 8192 buffer hp of
             ((realRef, imagRef), hp1) \<Rightarrow>
               (let magnitudes =
                      map (\<lambda>i. \<lparr>freq = real i * rate / 8192,
                                mag = sqrt ((hp1 ! realRef ! i)\<^sup>2 + (hp1 ! imagRef ! i)\<^sup>2)\<rparr>)
                        [1..<8192 div 2]
                in (Inr (topFrequencies n (findPeaks magnitudes)), hp1))))"

definition detectFormants_h ::
  "AudioBufferRef \<Rightarrow> real \<Rightarrow> real \<Rightarrow> heap \<Rightarrow> (error + real list) \<times> heap" where
  "detectFormants_h buffer n rate hp =
     (case getFFT 8192 of
        Inl e \<Rightarrow> (Inl e, hp)
      | Inr fft8192 \<Rightarrow>
          (case spectrumOfChunk_h fft8192 8192 buffer hp of
             ((realRef, imagRef), hp1) \<Rightarrow>
               (let magnitudes =
                      map (\<lambda>i. \<lparr>freq = real i * rate / 8192,
                                mag = sqrt ((hp1 ! realRef ! i)\<^sup>2 + (hp1 ! imagRef ! i)\<^sup>2)\<rparr>)
                        (filter (\<lambda>i. real i * rate / 8192 \<ge> 300 \<and> real i * rate / 8192 \<le> 5000)
                           [1..<8192 div 2])
                in (Inr (topFrequencies n (findPeaks magnitudes)), hp1))))"

text \<open>One frame of \<open>applyFourierMasking\<close>, in three steps. First the windowed frames of the
  source and of the target and their imaginary parts, four new arrays.\<close>

definition windowedFrames_h ::
  "nat \<Rightarrow> ref \<Rightarrow> ref \<Rightarrow> ref \<Rightarrow> nat \<Rightarrow> heap \<Rightarrow> (ref \<times> ref \<times> ref \<times> ref) \<times> heap" where
  "windowedFrames_h fftSize windowRef sourceRef targetRef i hp =
     (case newFloat32Array
             (map (\<lambda>j. hp ! sourceRef ! (i + j) * hp ! windowRef ! j) [0..<fftSize]) hp of
        (sourceReal, hp1) \<Rightarrow>
     (case newFloat32Array
             (map (\<lambda>j. hp1 ! targetRef ! (i + j) * hp1 ! windowRef ! j) [0..<fftSize]) hp1 of
        (targetReal, hp2) \<Rightarrow>
     (case newFloat32Array (replicate fftSize 0) hp2 of
        (sourceImag, hp3) \<Rightarrow>
     (case newFloat32Array (replicate fftSize 0) hp3 of
        (targetImag, hp4) \<Rightarrow> ((sourceReal, sourceImag, targetReal, targetImag), hp4)))))"

text \<open>Then, after the two forward transforms, the new frame: the magnitude of the source at the
  phase of the target, two new arrays.\<close>

definition maskedFrame_h ::
  "nat \<Rightarrow> ref \<Rightarrow> ref \<Rightarrow> ref \<Rightarrow> ref \<Rightarrow> heap \<Rightarrow> (ref \<times> ref) \<times> heap" where
  "maskedFrame_h fftSize sourceReal sourceImag targetReal targetImag hp =
     (case newFloat32Array
             (map (\<lambda>j. sqrt ((hp ! sourceReal ! j)\<^sup>2 + (hp ! sourceImag ! j)\<^sup>2)
                       * cos (atan2 (hp ! targetImag ! j) (hp ! targetReal ! j)))
                [0..<fftSize]) hp of
        (newReal, hp1) \<Rightarrow>
     (case newFloat32Array
             (map (\<lambda>j. sqrt ((hp1 ! sourceReal ! j)\<^sup>2 + (hp1 ! sourceImag ! j)\<^sup>2)
                       * sin (atan2 (hp1 ! targetImag ! j) (hp1 ! targetReal ! j)))
                [0..<fftSize]) hp1 of
        (newImag, hp2) \<Rightarrow> ((newReal, newImag), hp2)))"

text \<open>Last, after the inverse transform, the overlap-add into the array of the result.\<close>

definition overlapAdd_h :: "nat \<Rightarrow> ref \<Rightarrow> ref \<Rightarrow> ref \<Rightarrow> nat \<Rightarrow> heap \<Rightarrow> heap" where
  "overlapAdd_h fftSize windowRef newReal resultRef i hp =
     hp[resultRef :=
          fold (\<lambda>j res. res[i + j := res ! (i + j) + hp ! newReal ! j * hp ! windowRef ! j])
            [0..<fftSize] (hp ! resultRef)]"

definition maskFrame_h ::
  "(spectrum \<Rightarrow> bool \<Rightarrow> spectrum) \<Rightarrow> nat \<Rightarrow> ref \<Rightarrow> ref \<Rightarrow> ref \<Rightarrow> ref \<Rightarrow> nat \<Rightarrow> heap \<Rightarrow> heap" where
  "maskFrame_h fftN fftSize windowRef sourceRef targetRef resultRef i hp =
     (case windowedFrames_h fftSize windowRef sourceRef targetRef i hp of
        ((sourceReal, sourceImag, targetReal, targetImag), hp1) \<Rightarrow>
          (case maskedFrame_h fftSize sourceReal sourceImag targetReal targetImag
                  (callFFT_h fftN targetReal targetImag False
                     (callFFT_h fftN sourceReal sourceImag False hp1)) of
             ((newReal, newImag), hp2) \<Rightarrow>
               overlapAdd_h fftSize windowRef newReal resultRef i
                 (callFFT_h fftN newReal newImag True hp2)))"

function maskFrames_h ::
  "(spectrum \<Rightarrow> bool \<Rightarrow> spectrum) \<Rightarrow> nat \<Rightarrow> nat \<Rightarrow> nat \<Rightarrow> ref \<Rightarrow> ref \<Rightarrow> ref \<Rightarrow> ref \<Rightarrow> nat
   \<Rightarrow> heap \<Rightarrow> heap" where
  "maskFrames_h fftN fftSize hopSize len windowRef sourceRef targetRef resultRef i hp =
     (if i + fftSize \<le> len \<and> 0 < hopSize
      then maskFrames_h fftN fftSize hopSize len windowRef sourceRef targetRef resultRef
             (i + hopSize)
             (maskFrame_h fftN fftSize windowRef sourceRef targetRef resultRef i hp)
      else hp)"
  by pat_completeness auto
termination
  by (relation "measure (\<lambda>(fftN, fftSize, hopSize, len, windowRef, sourceRef, targetRef,
        resultRef, i, hp). Suc len - i)") auto

declare maskFrames_h.simps [simp del]

definition applyFourierMasking_h ::
  "AudioBufferRef \<Rightarrow> AudioBufferRef \<Rightarrow> heap \<Rightarrow> (error + AudioBufferRef) \<times> heap" where
  "applyFourierMasking_h sourceBuffer targetBuffer hp =
     (let fftSize = 2048; hopSize = fftSize div 4 in
      case getFFT (int fftSize) of
        Inl e \<Rightarrow> (Inl e, hp)
      | Inr fftN \<Rightarrow>
          (let len = min (lengthOf sourceBuffer) (lengthOf targetBuffer) in
           case createBuffer_h 1 len (sampleRateOf sourceBuffer) hp of
             (result, hp1) \<Rightarrow>
               (case newFloat32Array (fftWindow fftSize) hp1 of
                  (windowRef, hp2) \<Rightarrow>
                    (Inr result,
                     maskFrames_h fftN fftSize hopSize len windowRef
                       (channelRefs sourceBuffer ! 0) (channelRefs targetBuffer ! 0)
                       (channelRefs result ! 0) 0 hp2))))"

definition applyDynamicRingModulation_h ::
  "AudioBufferRef \<Rightarrow> AudioBufferRef \<Rightarrow> TransformationParams \<Rightarrow> heap \<Rightarrow> AudioBufferRef \<times> heap" where
  "applyDynamicRingModulation_h sourceBuffer targetBuffer params hp =
     (let baseFreq = orDefault (ringModBaseFreq params) 100;
          freqRange = orDefault (ringModRange params) 1000;
          mix = orDefault (ringModMix params) 0.5;
          sr = sampleRateOf targetBuffer
      in case getAmplitudeEnvelope_h sourceBuffer 0.99 hp of
           (sourceEnvelope, hp1) \<Rightarrow>
             (case createBuffer_h (length (channelRefs targetBuffer)) (lengthOf targetBuffer)
                     (sampleRateOf targetBuffer) hp1 of
                (result, hp2) \<Rightarrow>
                  (result,
                   snd (fold (\<lambda>c st.
                                let h = snd st;
                                    ch = fold (ringModStep baseFreq freqRange mix sr
                                                 (h ! (channelRefs sourceEnvelope ! 0))
                                                 (h ! (channelRefs targetBuffer ! c)))
                                           [0..<lengthOf targetBuffer] (fst st, [])
                                in (fst ch, h[channelRefs result ! c := snd ch]))
                          [0..<length (channelRefs targetBuffer)] (0, hp2)))))"

definition applySpectralShaping_h ::
  "host \<Rightarrow> AudioBufferRef \<Rightarrow> AudioBufferRef \<Rightarrow> TransformationParams \<Rightarrow> heap
   \<Rightarrow> AudioBufferRef \<times> heap" where
  "applySpectralShaping_h h sourceBuffer targetBuffer params hp =
     hostBuffer (renderSpectralShaping h (contents hp sourceBuffer) (contents hp targetBuffer)
                   (orDefault (spectralMix params) 1)) hp"

text \<open>\<open>trimSilence\<close> returns the buffer it is given when nothing is trimmed; otherwise each
  channel is copied (\<open>slice\<close>) and the copy is copied into a channel of a new buffer.\<close>

definition trimSilence_h :: "AudioBufferRef \<Rightarrow> real \<Rightarrow> heap \<Rightarrow> AudioBufferRef \<times> heap" where
  "trimSilence_h buffer threshold hp =
     (let first = firstSample threshold (hp ! (channelRefs buffer ! 0)) in
      if first = 0 then (buffer, hp)
      else
        (case createBuffer_h (length (channelRefs buffer)) (lengthOf buffer - first)
                (sampleRateOf buffer) hp of
           (newBuffer, hp1) \<Rightarrow>
             (newBuffer,
              fold (\<lambda>i h. case newFloat32Array (drop first (h ! (channelRefs buffer ! i))) h of
                             (sliceRef, h1) \<Rightarrow> h1[channelRefs newBuffer ! i := h1 ! sliceRef])
                [0..<length (channelRefs buffer)] hp1)))"

definition applyConvolution_h ::
  "host \<Rightarrow> AudioBufferRef \<Rightarrow> AudioBufferRef \<Rightarrow> heap \<Rightarrow> AudioBufferRef \<times> heap" where
  "applyConvolution_h h sourceBuffer targetBuffer hp =
     (let newLength = lengthOf sourceBuffer + lengthOf targetBuffer - 1 in
      case hostBuffer (renderConvolver h (contents hp sourceBuffer) (contents hp targetBuffer)
                         newLength) hp of
        (renderedBuffer, hp1) \<Rightarrow> trimSilence_h renderedBuffer 0.005 hp1)"

text \<open>\<open>detectTransients\<close> only reads channel 0 of the buffer. In the operators below it is
  applied to the contents of the buffer, and the target buffer that is returned unchanged is
  the buffer that was passed in, not a copy.\<close>

definition applyTimeScaleWarping_h ::
  "host \<Rightarrow> AudioBufferRef \<Rightarrow> AudioBufferRef \<Rightarrow> TransformationParams \<Rightarrow> heap
   \<Rightarrow> AudioBufferRef \<times> heap" where
  "applyTimeScaleWarping_h h sourceBuffer targetBuffer params hp =
     (let sensitivity = orDefault (transientSensitivity params) 1.8;
          source = contents hp sourceBuffer;
          target = contents hp targetBuffer;
          sourceTransients = detectTransients source sensitivity 50;
          targetTransients = detectTransients target sensitivity 50;
          numSegments = int (min (length sourceTransients) (length targetTransients)) - 1
      in if numSegments \<le> 0 then (targetBuffer, hp)
         else
           (let totalDuration =
                  fold (\<lambda>i total. total
                          + (real (sourceTransients ! (i + 1)) - real (sourceTransients ! i))
                              / sampleRate source)
                    [0..<nat numSegments] 0;
                segments =
                  fst (fold (warpStep source target sourceTransients targetTransients)
                         [0..<nat numSegments] ([], 0))
            in hostBuffer (renderSegments h target
                             (nat \<lceil>totalDuration * sampleRate target\<rceil>) segments) hp))"

definition applyHarmonicImprinting_h ::
  "host \<Rightarrow> AudioBufferRef \<Rightarrow> AudioBufferRef \<Rightarrow> TransformationParams \<Rightarrow> heap
   \<Rightarrow> (error + AudioBufferRef) \<times> heap" where
  "applyHarmonicImprinting_h h sourceBuffer targetBuffer params hp =
     (case detectHarmonics_h sourceBuffer (orDefault (numHarmonics params) 12)
             (sampleRateOf targetBuffer) hp of
        (Inl e, hp1) \<Rightarrow> (Inl e, hp1)
      | (Inr harmonics, hp1) \<Rightarrow>
          if length harmonics = 0 then (Inr targetBuffer, hp1)
          else (case hostBuffer
                       (renderHarmonicImprint h (contents hp1 targetBuffer)
                          (filter (\<lambda>f. f > 0 \<and> f < sampleRateOf targetBuffer / 2) harmonics)
                          (orDefault (harmonicQ params) 30)) hp1 of
                  (result, hp2) \<Rightarrow> (Inr result, hp2)))"

definition applyInterferenceEchoes_h ::
  "host \<Rightarrow> AudioBufferRef \<Rightarrow> AudioBufferRef \<Rightarrow> TransformationParams \<Rightarrow> heap
   \<Rightarrow> AudioBufferRef \<times> heap" where
  "applyInterferenceEchoes_h h sourceBuffer targetBuffer params hp =
     (let source = contents hp sourceBuffer;
          target = contents hp targetBuffer;
          sourceTransients = detectTransients source 1.8 50
      in if length sourceTransients \<le> 1 then (targetBuffer, hp)
         else hostBuffer
                (renderEchoes h target
                   (nat \<lfloor>real (bufferLength target) + sampleRate target * 4\<rfloor>)
                   (map (\<lambda>sampleIndex. real sampleIndex / sampleRate source) sourceTransients)
                   (orDefault (interferenceFeedback params) 0.5)
                   (orDefault (interferenceMix params) 0.5)) hp)"

definition applyFormantShifting_h ::
  "host \<Rightarrow> AudioBufferRef \<Rightarrow> AudioBufferRef \<Rightarrow> TransformationParams \<Rightarrow> heap
   \<Rightarrow> (error + AudioBufferRef) \<times> heap" where
  "applyFormantShifting_h h sourceBuffer targetBuffer params hp =
     (case detectFormants_h sourceBuffer (orDefault (numFormants params) 4)
             (sampleRateOf targetBuffer) hp of
        (Inl e, hp1) \<Rightarrow> (Inl e, hp1)
      | (Inr formants, hp1) \<Rightarrow>
          if length formants = 0 then (Inr targetBuffer, hp1)
          else (case hostBuffer
                       (renderFormantShift h (contents hp1 targetBuffer)
                          (filter (\<lambda>f. f > 0 \<and> f < sampleRateOf targetBuffer / 2) formants)
                          (orDefault (formantQ params) 20)
                          (orDefault (formantMix params) 0.7)) hp1 of
                  (result, hp2) \<Rightarrow> (Inr result, hp2)))"

text \<open>Lifting an operator that cannot raise and does not use \<open>Math.random\<close>.\<close>

definition plain ::
  "rng \<Rightarrow> AudioBufferRef \<times> heap \<Rightarrow> (error + AudioBufferRef \<times> rng) \<times> heap" where
  "plain random r = (Inr (fst r, random), snd r)"

definition raising ::
  "rng \<Rightarrow> (error + AudioBufferRef) \<times> heap \<Rightarrow> (error + AudioBufferRef \<times> rng) \<times> heap" where
  "raising random r =
     (case fst r of Inl e \<Rightarrow> (Inl e, snd r) | Inr b \<Rightarrow> (Inr (b, random), snd r))"

definition run_h ::
  "host \<Rightarrow> rng \<Rightarrow> AudioBufferRef \<Rightarrow> AudioBufferRef \<Rightarrow> TransformationParams
   \<Rightarrow> TransformationType \<Rightarrow> heap \<Rightarrow> (error + AudioBufferRef \<times> rng) \<times> heap" where
  "run_h h random sourceBuffer targetBuffer params type hp =
     (case type of
        AMPLITUDE \<Rightarrow> plain random (applyAmplitudeMapping_h sourceBuffer targetBuffer hp)
      | RHYTHMIC \<Rightarrow> plain random (applyRhythmicGating_h sourceBuffer targetBuffer params hp)
      | SPECTRAL \<Rightarrow> plain random (applySpectralShaping_h h sourceBuffer targetBuffer params hp)
      | CONVOLUTION \<Rightarrow> plain random (applyConvolution_h h sourceBuffer targetBuffer hp)
      | TIME_WARP \<Rightarrow> plain random (applyTimeScaleWarping_h h sourceBuffer targetBuffer params hp)
      | SURFACE_TRANSLATE \<Rightarrow>
          (case applySurfaceTranslationMapping_h random sourceBuffer targetBuffer params hp of
             (r, hp1) \<Rightarrow> (Inr r, hp1))
      | FOURIER_MASKING \<Rightarrow> raising random (applyFourierMasking_h sourceBuffer targetBuffer hp)
      | HARMONIC_IMPRINT \<Rightarrow>
          raising random (applyHarmonicImprinting_h h sourceBuffer targetBuffer params hp)
      | INTERFERENCE_ECHOES \<Rightarrow>
          plain random (applyInterferenceEchoes_h h sourceBuffer targetBuffer params hp)
      | FORMANT_SHIFTING \<Rightarrow>
          raising random (applyFormantShifting_h h sourceBuffer targetBuffer params hp)
      | DYNAMIC_RING_MOD \<Rightarrow>
          plain random (applyDynamicRingModulation_h sourceBuffer targetBuffer params hp)
      | TRANSFORMATION_MORPH \<Rightarrow> (Inl InvalidTransformation, hp))"

definition applyTransformationMorph_h ::
  "host \<Rightarrow> rng \<Rightarrow> AudioBufferRef \<Rightarrow> AudioBufferRef \<Rightarrow> TransformationType \<Rightarrow> TransformationType
   \<Rightarrow> TransformationParams \<Rightarrow> heap \<Rightarrow> (error + AudioBufferRef \<times> rng) \<times> heap" where
  "applyTransformationMorph_h h random sourceBuffer targetBuffer transformA transformB params hp =
     (case run_h h random sourceBuffer targetBuffer params transformA hp of
        (Inl e, hp1) \<Rightarrow> (Inl e, hp1)
      | (Inr (resultA, random1), hp1) \<Rightarrow>
          (case run_h h random1 sourceBuffer targetBuffer params transformB hp1 of
             (Inl e, hp2) \<Rightarrow> (Inl e, hp2)
           | (Inr (resultB, random2), hp2) \<Rightarrow>
               (let position = orDefault (morphPosition params) 0.5;
                    gainA = 1 - position;
                    gainB = position;
                    len = max (lengthOf resultA) (lengthOf resultB);
                    numChannels = min (length (channelRefs resultA)) (length (channelRefs resultB));
                    rate = sampleRateOf resultA
                in case hostBuffer
                          (renderCrossfade h numChannels len rate (contents hp2 resultA) gainA
                             (contents hp2 resultB) gainB) hp2 of
                     (result, hp3) \<Rightarrow> (Inr (result, random2), hp3))))"

text \<open>\<open>unchanged n hp hp'\<close>: the heap \<open>hp'\<close> has every array of \<open>hp\<close>, and the arrays below
  reference \<open>n\<close> hold in \<open>hp'\<close> what they hold in \<open>hp\<close>.\<close>

definition unchanged :: "nat \<Rightarrow> heap \<Rightarrow> heap \<Rightarrow> bool" where
  "unchanged n hp hp' \<longleftrightarrow> length hp \<le> length hp' \<and> take n hp' = take n hp"

text \<open>A buffer of the heap: its channel arrays are allocated.\<close>

definition allocated :: "heap \<Rightarrow> AudioBufferRef \<Rightarrow> bool" where
  "allocated hp b \<longleftrightarrow> list_all (\<lambda>r. r < length hp) (channelRefs b)"

subsection \<open>Buffers used in examples\<close>

definition exampleBuffer :: AudioBuffer where
  "exampleBuffer = \<lparr>channelData = [[1 / 2, - 1]], bufferLength = 2, sampleRate = 44100\<rparr>"

definition silentBuffer :: AudioBuffer where
  "silentBuffer = \<lparr>channelData = [[0, 0]], bufferLength = 2, sampleRate = 44100\<rparr>"

definition shortBuffer :: AudioBuffer where
  "shortBuffer = \<lparr>channelData = [[1]], bufferLength = 1, sampleRate = 44100\<rparr>"

definition defaultParams :: TransformationParams where
  "defaultParams =
     \<lparr>gateThreshold = None, spectralMix = None, transientSensitivity = None,
      surfaceJitter = None, numHarmonics = None, harmonicQ = None,
      interferenceFeedback = None, interferenceMix = None, numFormants = None,
      formantQ = None, formantMix = None, ringModBaseFreq = None, ringModRange = None,
      ringModMix = None, morphPosition = None\<rparr>"

subsection \<open>A host used in examples\<close>

text \<open>A host that renders silence of the requested shape and does not mix or resample. It
  serves to state examples as closed terms; none of the examples below depends on what it
  renders.\<close>

definition silentHost :: host where
  "silentHost =
     \<lparr>renderSpectralShaping =
        (\<lambda>s t m. createBuffer (numberOfChannels t) (bufferLength t) (sampleRate t)),
      renderConvolver = (\<lambda>s t n. createBuffer (numberOfChannels t) n (sampleRate t)),
      renderSegments = (\<lambda>t n segs. createBuffer (numberOfChannels t) n (sampleRate t)),
      renderHarmonicImprint =
        (\<lambda>t fs q. createBuffer (numberOfChannels t) (bufferLength t) (sampleRate t)),
      renderEchoes = (\<lambda>t n ts fb m. createBuffer (numberOfChannels t) n (sampleRate t)),
      renderFormantShift =
        (\<lambda>t fs q m. createBuffer (numberOfChannels t) (bufferLength t) (sampleRate t)),
      conformChannels = (\<lambda>n r b. channelData b)\<rparr>"

definition zeroRandom :: rng where
  "zeroRandom = (\<lambda>k. 0)"

definition morphParams :: "real \<Rightarrow> TransformationParams" where
  "morphParams position = defaultParams\<lparr>morphPosition := Some position\<rparr>"

text \<open>The buffer of a result, without the state of the random number generator.\<close>

definition bufferOf :: "error + AudioBuffer \<times> rng \<Rightarrow> error + AudioBuffer" where
  "bufferOf r = (case r of Inl e \<Rightarrow> Inl e | Inr (b, random) \<Rightarrow> Inr b)"

text \<open>A heap with the channel of \<open>shortBuffer\<close> at reference 0 and the channel of
  \<open>exampleBuffer\<close>, which is not sorted, at reference 1.\<close>

definition exampleHeap :: heap where
  "exampleHeap = [[1], [1 / 2, - 1]]"

definition shortRef :: AudioBufferRef where
  "shortRef = \<lparr>channelRefs = [0], lengthOf = 1, sampleRateOf = 44100\<rparr>"

definition exampleRef :: AudioBufferRef where
  "exampleRef = \<lparr>channelRefs = [1], lengthOf = 2, sampleRateOf = 44100\<rparr>"

subsection \<open>Notions used to state what the transform computes\<close>


text \<open>The twiddle factor that the stage of length \<open>len\<close> reads from the tables at \<open>j\<close>.\<close>

definition tw :: "bool \<Rightarrow> nat \<Rightarrow> nat \<Rightarrow> complex" where
  "tw invert len j = cis ((if invert then - 1 else 1) * (pi * real j / real len))"

text \<open>One stage of length \<open>len\<close>, as a map on sequences.\<close>

definition stageF :: "bool \<Rightarrow> nat \<Rightarrow> (nat \<Rightarrow> complex) \<Rightarrow> nat \<Rightarrow> complex" where
  "stageF invert len a p =
     (if p mod len < len div 2
      then a p + tw invert len (p mod len) * a (p + len div 2)
      else a (p - len div 2) - tw invert len (p mod len - len div 2) * a p)"





section \<open>Properties\<close>

subsection \<open>The size guard of the FFT\<close>

lemma and_pred_eq_0_iff:
  fixes n :: int
  assumes "0 < n"
  shows "n AND (n - 1) = 0 \<longleftrightarrow> (\<exists>k. n = 2 ^ k)"
  using assms
proof (induction "nat n" arbitrary: n rule: less_induct)
  case less
  show ?case
  proof (cases "even n")
    case True
    then obtain m where m: "n = 2 * m" by (auto elim: evenE)
    with less.prems have mpos: "0 < m" by simp
    have half: "(2 * m - 1) div 2 = m - 1" by presburger
    have step: "n AND (n - 1) = 2 * (m AND (m - 1))"
      by (subst and_rec) (simp add: m half)
    have IH: "m AND (m - 1) = 0 \<longleftrightarrow> (\<exists>k. m = 2 ^ k)"
      using less.hyps [of m] mpos m by simp
    have "(\<exists>k. n = 2 ^ k) \<longleftrightarrow> (\<exists>k. m = 2 ^ k)"
    proof
      assume "\<exists>k. n = 2 ^ k"
      then obtain k where k: "n = 2 ^ k" ..
      with True mpos m have "k \<noteq> 0" by (cases k) auto
      then obtain k' where "k = Suc k'" by (cases k) auto
      with k m show "\<exists>k. m = 2 ^ k" by auto
    next
      assume "\<exists>k. m = 2 ^ k"
      then obtain k where "m = 2 ^ k" ..
      with m have "n = 2 ^ Suc k" by simp
      then show "\<exists>k. n = 2 ^ k" ..
    qed
    with step IH show ?thesis by simp
  next
    case False
    then obtain m where m: "n = 2 * m + 1" by (auto elim: oddE)
    with less.prems have mnn: "0 \<le> m" by simp
    have step: "n AND (n - 1) = 2 * m"
      by (subst and_rec) (simp add: m)
    have "(\<exists>k. n = 2 ^ k) \<longleftrightarrow> m = 0"
    proof
      assume "\<exists>k. n = 2 ^ k"
      then obtain k where k: "n = 2 ^ k" ..
      with False have "k = 0" by (cases k) auto
      with k m show "m = 0" by simp
    next
      assume "m = 0"
      with m have "n = 2 ^ 0" by simp
      then show "\<exists>k. n = 2 ^ k" ..
    qed
    with step show ?thesis by simp
  qed
qed

lemma js_bitand_small:
  assumes "0 \<le> a" "a < 2 ^ 31" "0 \<le> b"
  shows "js_bitand a b = a AND b"
proof -
  have nn: "0 \<le> a AND b" using assms by simp
  have le: "a AND b \<le> a" using assms by (simp add: AND_upper1)
  have "toInt32 a AND toInt32 b = word_of_int (a AND b)"
    by (simp add: toInt32_def word_wi_log_defs)
  then have "js_bitand a b = sint (word_of_int (a AND b) :: 32 word)"
    by (simp add: js_bitand_def)
  also have "\<dots> = signed_take_bit 31 (a AND b)"
    by (simp add: sint_sbintrunc')
  also have "\<dots> = a AND b"
  proof (rule signed_take_bit_int_eq_self)
    have "(0::int) < 2 ^ 31" by simp
    then show "- (2 ^ 31) \<le> a AND b" using nn by linarith
    show "a AND b < 2 ^ 31" using le assms(2) by linarith
  qed
  finally show ?thesis .
qed

lemma getFFT_int32:
  assumes "0 < sz" "sz < 2 ^ 31"
  shows "getFFT sz = (if \<exists>k. sz = 2 ^ k then Inr (fft (nat sz)) else Inl FFTSizeError)"
proof -
  have "js_bitand sz (sz - 1) = sz AND (sz - 1)"
    using assms by (intro js_bitand_small) auto
  with assms(1) show ?thesis
    by (simp add: getFFT_def and_pred_eq_0_iff)
qed

lemma not_pow2_300: "\<nexists>k. (300::int) = 2 ^ k"
proof
  assume "\<exists>k. (300::int) = 2 ^ k"
  then obtain k where k: "(300::int) = 2 ^ k" ..
  show False
  proof (cases "k \<le> 8")
    case True
    then have "(2::int) ^ k \<le> 2 ^ 8" by (intro power_increasing) auto
    with k show False by simp
  next
    case False
    then have "(2::int) ^ 9 \<le> 2 ^ k" by (intro power_increasing) auto
    with k show False by simp
  qed
qed

text \<open>
  Claim C2. \<open>getFFT\<close> raises its error for every size that is zero or negative and for every
  positive size in the signed 32-bit range that is not a power of two, 300 among them; for
  every power of two in that range, 512 and 1024 among them, it returns the transform of
  that size without raising.
\<close>

theorem getFFT_size_guard:
  "(\<forall>sz. sz \<le> 0 \<longrightarrow> getFFT sz = Inl FFTSizeError)
   \<and> (\<forall>sz. 0 < sz \<and> sz < 2 ^ 31 \<and> (\<nexists>k. sz = 2 ^ k) \<longrightarrow> getFFT sz = Inl FFTSizeError)
   \<and> getFFT 300 = Inl FFTSizeError
   \<and> (\<forall>k. k < 31 \<longrightarrow> getFFT (2 ^ k) = Inr (fft (2 ^ k)))
   \<and> getFFT 512 = Inr (fft 512)
   \<and> getFFT 1024 = Inr (fft 1024)"
proof (intro conjI allI impI)
  fix sz :: int assume "sz \<le> 0"
  then show "getFFT sz = Inl FFTSizeError" by (simp add: getFFT_def)
next
  fix sz :: int assume "0 < sz \<and> sz < 2 ^ 31 \<and> (\<nexists>k. sz = 2 ^ k)"
  then show "getFFT sz = Inl FFTSizeError" by (simp add: getFFT_int32)
next
  show "getFFT 300 = Inl FFTSizeError"
    using not_pow2_300 by (simp add: getFFT_int32)
next
  fix k :: nat assume k: "k < 31"
  then have "(2::int) ^ k < 2 ^ 31" by (intro power_strict_increasing) auto
  moreover have "(0::int) < 2 ^ k" by simp
  ultimately have "getFFT (2 ^ k) = Inr (fft (nat (2 ^ k)))"
    by (subst getFFT_int32) auto
  then show "getFFT (2 ^ k) = Inr (fft (2 ^ k))"
    by (simp add: nat_power_eq)
next
  have "\<exists>k. (512::int) = 2 ^ k" by (rule exI [of _ 9]) simp
  then show "getFFT 512 = Inr (fft 512)" by (simp add: getFFT_int32)
next
  have "\<exists>k. (1024::int) = 2 ^ k" by (rule exI [of _ 10]) simp
  then show "getFFT 1024 = Inr (fft 1024)" by (simp add: getFFT_int32)
qed

theorem getFFT_size_guard_witness:
  "(- 4 :: int) \<le> 0 \<and> getFFT (- 4) = Inl FFTSizeError
   \<and> (0::int) < 300 \<and> (300::int) < 2 ^ 31 \<and> (\<nexists>k. (300::int) = 2 ^ k)
   \<and> getFFT 300 = Inl FFTSizeError
   \<and> (9::nat) < 31 \<and> getFFT (2 ^ 9) = Inr (fft (2 ^ 9))"
proof -
  have a: "getFFT (- 4) = Inl FFTSizeError"
    using getFFT_size_guard by simp
  have b: "getFFT 300 = Inl FFTSizeError"
    using getFFT_size_guard by blast
  have "(9::nat) < 31 \<longrightarrow> getFFT (2 ^ 9) = Inr (fft (2 ^ 9))"
    using getFFT_size_guard by blast
  then have c: "getFFT (2 ^ 9) = Inr (fft (2 ^ 9))" by simp
  show ?thesis using a b c not_pow2_300 by simp
qed

subsection \<open>Amplitude envelope\<close>

lemma onePole_nonneg:
  "0 \<le> s \<Longrightarrow> s \<le> 1 \<Longrightarrow> 0 \<le> l \<Longrightarrow> y \<in> set (onePole s l xs) \<Longrightarrow> 0 \<le> y"
proof (induction xs arbitrary: l)
  case Nil
  then show ?case by simp
next
  case (Cons x xs)
  let ?v = "s * l + (1 - s) * \<bar>x\<bar>"
  have v: "0 \<le> ?v" using Cons.prems by simp
  from Cons.prems(4) have "y = ?v \<or> y \<in> set (onePole s ?v xs)"
    by (simp add: Let_def)
  then show ?case using v Cons.IH [OF Cons.prems(1,2) v] by auto
qed

lemma onePole_zero:
  "\<forall>x\<in>set xs. x = 0 \<Longrightarrow> onePole s 0 xs = replicate (length xs) 0"
  by (induction xs) (simp_all add: Let_def)

lemma fold_max_ge_init: "m \<le> fold (\<lambda>y m. if y > m then y else m) ys (m::real)"
proof (induction ys arbitrary: m)
  case Nil
  show ?case by simp
next
  case (Cons y ys)
  show ?case using Cons [of y] Cons [of m] by auto
qed

lemma fold_max_ge_elem:
  "y \<in> set ys \<Longrightarrow> y \<le> fold (\<lambda>y m. if y > m then y else m) ys (m::real)"
proof (induction ys arbitrary: m)
  case Nil
  then show ?case by simp
next
  case (Cons z zs)
  show ?case
  proof (cases "y = z")
    case True
    then show ?thesis
      using fold_max_ge_init [of z zs] fold_max_ge_init [of m zs] by auto
  next
    case False
    with Cons.prems have "y \<in> set zs" by simp
    then show ?thesis using Cons.IH by simp
  qed
qed

lemma maxVal_ge: "y \<in> set ys \<Longrightarrow> y \<le> maxVal ys"
  unfolding maxVal_def by (rule fold_max_ge_elem)

lemma maxVal_replicate_zero: "maxVal (replicate n 0) = 0"
  unfolding maxVal_def by (induction n) simp_all

lemma envelopeChannel_bounds:
  assumes "0 \<le> s" "s \<le> 1" "y \<in> set (envelopeChannel s xs)"
  shows "0 \<le> y \<and> y \<le> 1"
proof -
  let ?out = "onePole s 0 xs"
  have nn: "0 \<le> z" if "z \<in> set ?out" for z
    using onePole_nonneg [OF assms(1,2), of 0 z xs] that by simp
  show ?thesis
  proof (cases "maxVal ?out > 0")
    case True
    with assms(3) obtain z where z: "z \<in> set ?out" "y = z / maxVal ?out"
      by (auto simp: envelopeChannel_def normalizeEnvelope_def Let_def)
    from z(1) have "0 \<le> z" "z \<le> maxVal ?out" by (auto intro: nn maxVal_ge)
    with True z(2) show ?thesis by simp
  next
    case False
    with assms(3) have y: "y \<in> set ?out"
      by (auto simp: envelopeChannel_def normalizeEnvelope_def Let_def)
    then have "0 \<le> y" "y \<le> maxVal ?out" by (auto intro: nn maxVal_ge)
    with False show ?thesis by simp
  qed
qed

lemma envelopeChannel_zero:
  assumes "\<forall>x\<in>set xs. x = 0"
  shows "envelopeChannel s xs = replicate (length xs) 0"
  by (simp add: envelopeChannel_def normalizeEnvelope_def onePole_zero [OF assms]
      maxVal_replicate_zero)

text \<open>
  Claim C5. For every buffer and every smoothing value strictly between 0 and 1, every sample
  of every channel of \<open>getAmplitudeEnvelope buffer smoothing\<close> lies in the interval from 0 to
  1, and when every input sample is 0 every output sample is 0.
\<close>

theorem envelope_bounded:
  assumes "0 < s" "s < 1"
  shows "(\<forall>ch\<in>set (channelData (getAmplitudeEnvelope buffer s)). \<forall>y\<in>set ch. 0 \<le> y \<and> y \<le> 1)
    \<and> ((\<forall>ch\<in>set (channelData buffer). \<forall>x\<in>set ch. x = 0) \<longrightarrow>
        (\<forall>ch\<in>set (channelData (getAmplitudeEnvelope buffer s)). \<forall>y\<in>set ch. y = 0))"
proof (rule conjI; intro ballI impI)
  fix ch y
  assume "ch \<in> set (channelData (getAmplitudeEnvelope buffer s))" "y \<in> set ch"
  then obtain xs where "y \<in> set (envelopeChannel s xs)"
    by (auto simp: getAmplitudeEnvelope_def)
  with assms show "0 \<le> y \<and> y \<le> 1"
    using envelopeChannel_bounds [of s y xs] by simp
next
  fix ch y
  assume z: "\<forall>ch\<in>set (channelData buffer). \<forall>x\<in>set ch. x = 0"
    and "ch \<in> set (channelData (getAmplitudeEnvelope buffer s))" "y \<in> set ch"
  then obtain xs where xs: "xs \<in> set (channelData buffer)" "y \<in> set (envelopeChannel s xs)"
    by (auto simp: getAmplitudeEnvelope_def)
  with z have "envelopeChannel s xs = replicate (length xs) 0"
    by (intro envelopeChannel_zero) auto
  with xs(2) show "y = 0" by simp
qed

theorem envelope_bounded_witness:
  "(0::real) < 1 / 2 \<and> (1 / 2 :: real) < 1
   \<and> list_all (list_all (\<lambda>y. 0 \<le> y \<and> y \<le> 1))
        (channelData (getAmplitudeEnvelope exampleBuffer (1 / 2)))
   \<and> list_all (list_all (\<lambda>x. x = 0)) (channelData silentBuffer)
   \<and> list_all (list_all (\<lambda>y. y = 0))
        (channelData (getAmplitudeEnvelope silentBuffer (1 / 2)))"
proof -
  have s: "(0::real) < 1 / 2" "(1 / 2 :: real) < 1" by simp_all
  have z: "\<forall>ch\<in>set (channelData silentBuffer). \<forall>x\<in>set ch. x = 0"
    by (simp add: silentBuffer_def)
  from envelope_bounded [OF s, of exampleBuffer]
  have a: "list_all (list_all (\<lambda>y. 0 \<le> y \<and> y \<le> 1))
        (channelData (getAmplitudeEnvelope exampleBuffer (1 / 2)))"
    unfolding list_all_iff by blast
  from envelope_bounded [OF s, of silentBuffer] z
  have b: "list_all (list_all (\<lambda>y. y = 0))
        (channelData (getAmplitudeEnvelope silentBuffer (1 / 2)))"
    unfolding list_all_iff by blast
  from z have c: "list_all (list_all (\<lambda>x. x = 0)) (channelData silentBuffer)"
    unfolding list_all_iff by blast
  show ?thesis using s a b c by blast
qed

subsection \<open>Applying an envelope\<close>

lemma applyEnvelopeToBuffer_shape:
  "numberOfChannels (applyEnvelopeToBuffer e t) = numberOfChannels t"
  "bufferLength (applyEnvelopeToBuffer e t) = bufferLength t"
  "sampleRate (applyEnvelopeToBuffer e t) = sampleRate t"
  by (simp_all add: applyEnvelopeToBuffer_def numberOfChannels_def)

lemma applyEnvelopeToBuffer_channel:
  assumes "c < numberOfChannels t"
  shows "getChannelData (applyEnvelopeToBuffer e t) c =
    map (\<lambda>i. if i < min (length (getChannelData t c))
                        (length (getChannelData e (c mod numberOfChannels e)))
              then getChannelData t c ! i * getChannelData e (c mod numberOfChannels e) ! i
              else 0) [0..<bufferLength t]"
  using assms by (simp add: applyEnvelopeToBuffer_def getChannelData_def Let_def)

lemma length_onePole: "length (onePole s l xs) = length xs"
  by (induction xs arbitrary: l) (simp_all add: Let_def)

lemma length_envelopeChannel: "length (envelopeChannel s xs) = length xs"
  by (simp add: envelopeChannel_def normalizeEnvelope_def Let_def length_onePole)

lemma getAmplitudeEnvelope_shape:
  "numberOfChannels (getAmplitudeEnvelope b s) = numberOfChannels b"
  "bufferLength (getAmplitudeEnvelope b s) = bufferLength b"
  "sampleRate (getAmplitudeEnvelope b s) = sampleRate b"
  by (simp_all add: getAmplitudeEnvelope_def numberOfChannels_def)

lemma getAmplitudeEnvelope_channel:
  "c < numberOfChannels b \<Longrightarrow>
   getChannelData (getAmplitudeEnvelope b s) c = envelopeChannel s (getChannelData b c)"
  by (simp add: getAmplitudeEnvelope_def numberOfChannels_def getChannelData_def)

lemma wf_buffer_channel_length:
  "wf_buffer b \<Longrightarrow> c < numberOfChannels b \<Longrightarrow> length (getChannelData b c) = bufferLength b"
  by (simp add: wf_buffer_def list_all_length numberOfChannels_def getChannelData_def)

text \<open>
  Claim C4. For every source buffer, target buffer and parameters, the buffer returned by
  \<open>applyRhythmicGating\<close> has the shape of the target, and each of its samples is 0 or the
  target's sample at the same channel and frame.
\<close>

theorem gate_binarity:
  assumes "wf_buffer sourceBuffer"
  shows "numberOfChannels (applyRhythmicGating sourceBuffer targetBuffer params)
           = numberOfChannels targetBuffer
    \<and> bufferLength (applyRhythmicGating sourceBuffer targetBuffer params)
           = bufferLength targetBuffer
    \<and> (\<forall>c i. c < numberOfChannels targetBuffer \<and> i < bufferLength targetBuffer \<longrightarrow>
          length (getChannelData (applyRhythmicGating sourceBuffer targetBuffer params) c)
            = bufferLength targetBuffer
          \<and> (getChannelData (applyRhythmicGating sourceBuffer targetBuffer params) c ! i = 0
             \<or> getChannelData (applyRhythmicGating sourceBuffer targetBuffer params) c ! i
                = getChannelData targetBuffer c ! i))"
proof -
  define thr where "thr = orDefault (gateThreshold params) 0.2"
  define gate where "gate =
    \<lparr>channelData = map (map (\<lambda>e. if e > thr then 1 else (0::real)))
        (channelData (getAmplitudeEnvelope sourceBuffer 0.998)),
     bufferLength = bufferLength (getAmplitudeEnvelope sourceBuffer 0.998),
     sampleRate = sampleRate (getAmplitudeEnvelope sourceBuffer 0.998)\<rparr>"
  have r: "applyRhythmicGating sourceBuffer targetBuffer params
      = applyEnvelopeToBuffer gate targetBuffer"
    by (simp add: applyRhythmicGating_def Let_def gate_def thr_def)
  have nch: "0 < numberOfChannels gate"
    using assms by (simp add: gate_def numberOfChannels_def wf_buffer_def
        getAmplitudeEnvelope_def)
  have bin: "getChannelData gate k ! i = 0 \<or> getChannelData gate k ! i = 1"
    if "k < numberOfChannels gate" "i < length (getChannelData gate k)" for k i
    using that by (simp add: gate_def numberOfChannels_def getChannelData_def)
  show ?thesis
  proof (intro conjI allI impI)
    fix c i assume ci: "c < numberOfChannels targetBuffer \<and> i < bufferLength targetBuffer"
    let ?k = "c mod numberOfChannels gate"
    have k: "?k < numberOfChannels gate" using nch by simp
    show "length (getChannelData (applyRhythmicGating sourceBuffer targetBuffer params) c)
            = bufferLength targetBuffer"
      using ci by (simp add: r applyEnvelopeToBuffer_channel)
    show "getChannelData (applyRhythmicGating sourceBuffer targetBuffer params) c ! i = 0
             \<or> getChannelData (applyRhythmicGating sourceBuffer targetBuffer params) c ! i
                = getChannelData targetBuffer c ! i"
    proof -
      let ?r = "getChannelData (applyEnvelopeToBuffer gate targetBuffer) c ! i"
      have eq: "?r = (if i < min (length (getChannelData targetBuffer c))
                                (length (getChannelData gate ?k))
                     then getChannelData targetBuffer c ! i * getChannelData gate ?k ! i
                     else 0)"
        using ci by (simp add: applyEnvelopeToBuffer_channel)
      show ?thesis
      proof (cases "i < min (length (getChannelData targetBuffer c))
                          (length (getChannelData gate ?k))")
        case True
        then have "i < length (getChannelData gate ?k)" by simp
        from bin [OF k this] have "?r = 0 \<or> ?r = getChannelData targetBuffer c ! i"
          unfolding eq using True by auto
        then show ?thesis unfolding r by blast
      next
        case False
        then have "?r = 0" unfolding eq by (simp only: if_False)
        then show ?thesis unfolding r by blast
      qed
    qed
  qed (simp_all add: r applyEnvelopeToBuffer_shape)
qed

lemma wf_exampleBuffer: "wf_buffer exampleBuffer"
  by (simp add: wf_buffer_def exampleBuffer_def numberOfChannels_def)

lemma wf_shortBuffer: "wf_buffer shortBuffer"
  by (simp add: wf_buffer_def shortBuffer_def numberOfChannels_def)

lemma wf_silentBuffer: "wf_buffer silentBuffer"
  by (simp add: wf_buffer_def silentBuffer_def numberOfChannels_def)

theorem gate_binarity_witness:
  "wf_buffer exampleBuffer
   \<and> (0::nat) < numberOfChannels shortBuffer \<and> (0::nat) < bufferLength shortBuffer
   \<and> (getChannelData (applyRhythmicGating exampleBuffer shortBuffer defaultParams) 0 ! 0 = 0
      \<or> getChannelData (applyRhythmicGating exampleBuffer shortBuffer defaultParams) 0 ! 0
         = getChannelData shortBuffer 0 ! 0)"
proof -
  have n: "(0::nat) < numberOfChannels shortBuffer" "(0::nat) < bufferLength shortBuffer"
    by (simp_all add: shortBuffer_def numberOfChannels_def)
  from gate_binarity [OF wf_exampleBuffer, of shortBuffer defaultParams] n
  have "getChannelData (applyRhythmicGating exampleBuffer shortBuffer defaultParams) 0 ! 0 = 0
      \<or> getChannelData (applyRhythmicGating exampleBuffer shortBuffer defaultParams) 0 ! 0
         = getChannelData shortBuffer 0 ! 0"
    by blast
  with n wf_exampleBuffer show ?thesis by blast
qed

text \<open>
  Claim C8, as stated, fails: the result of \<open>applyAmplitudeMapping\<close> is created with the length
  of the target, so a source of 1 frame and a target of 2 frames give a result of 2 frames
  whose second frame is silent.
\<close>

lemma upt_0_2: "[0..<2] = [0, Suc 0]"
  by (simp add: upt_rec)

theorem amplitude_mapping_truncation_counterexample:
  "bufferLength shortBuffer < bufferLength exampleBuffer
   \<and> bufferLength (applyAmplitudeMapping shortBuffer exampleBuffer) \<noteq> bufferLength shortBuffer
   \<and> channelData (applyAmplitudeMapping shortBuffer exampleBuffer) = [[1 / 2, 0]]"
  by (simp add: applyAmplitudeMapping_def applyEnvelopeToBuffer_def getAmplitudeEnvelope_def
      envelopeChannel_def normalizeEnvelope_def maxVal_def shortBuffer_def exampleBuffer_def
      numberOfChannels_def getChannelData_def Let_def upt_0_2)

text \<open>
  Claim C8, amended. The result of \<open>applyAmplitudeMapping\<close> has the length, the channel count
  and the sample rate of the target. In channel \<open>c\<close>, a frame before the shorter of the two
  lengths is the target's sample times the normalised envelope (smoothing 0.995) of the source
  channel \<open>c mod numberOfChannels source\<close>, and every later frame is 0.
\<close>

theorem amplitude_mapping_result:
  assumes "wf_buffer sourceBuffer" "wf_buffer targetBuffer"
  shows "bufferLength (applyAmplitudeMapping sourceBuffer targetBuffer) = bufferLength targetBuffer
    \<and> numberOfChannels (applyAmplitudeMapping sourceBuffer targetBuffer)
        = numberOfChannels targetBuffer
    \<and> sampleRate (applyAmplitudeMapping sourceBuffer targetBuffer) = sampleRate targetBuffer
    \<and> (\<forall>c. c < numberOfChannels targetBuffer \<longrightarrow>
          getChannelData (applyAmplitudeMapping sourceBuffer targetBuffer) c =
            map (\<lambda>i. if i < min (bufferLength sourceBuffer) (bufferLength targetBuffer)
                      then getChannelData targetBuffer c ! i
                           * envelopeChannel 0.995
                               (getChannelData sourceBuffer
                                  (c mod numberOfChannels sourceBuffer)) ! i
                      else 0)
                [0..<bufferLength targetBuffer])"
proof (intro conjI allI impI)
  fix c assume c: "c < numberOfChannels targetBuffer"
  let ?k = "c mod numberOfChannels sourceBuffer"
  have k: "?k < numberOfChannels sourceBuffer"
    using assms(1) by (simp add: wf_buffer_def)
  have le: "length (getChannelData (getAmplitudeEnvelope sourceBuffer 0.995) ?k)
      = bufferLength sourceBuffer"
    using k assms(1)
    by (simp add: getAmplitudeEnvelope_channel length_envelopeChannel wf_buffer_channel_length)
  have lt: "length (getChannelData targetBuffer c) = bufferLength targetBuffer"
    using c assms(2) by (simp add: wf_buffer_channel_length)
  show "getChannelData (applyAmplitudeMapping sourceBuffer targetBuffer) c =
            map (\<lambda>i. if i < min (bufferLength sourceBuffer) (bufferLength targetBuffer)
                      then getChannelData targetBuffer c ! i
                           * envelopeChannel 0.995 (getChannelData sourceBuffer ?k) ! i
                      else 0)
                [0..<bufferLength targetBuffer]"
    using c k le lt
    by (simp add: applyAmplitudeMapping_def applyEnvelopeToBuffer_channel
        getAmplitudeEnvelope_shape getAmplitudeEnvelope_channel min.commute)
qed (simp_all add: applyAmplitudeMapping_def applyEnvelopeToBuffer_shape)

theorem amplitude_mapping_result_witness:
  "wf_buffer shortBuffer \<and> wf_buffer exampleBuffer
   \<and> bufferLength (applyAmplitudeMapping shortBuffer exampleBuffer) = 2
   \<and> (0::nat) < numberOfChannels exampleBuffer
   \<and> getChannelData (applyAmplitudeMapping shortBuffer exampleBuffer) 0 =
        map (\<lambda>i. if i < min (bufferLength shortBuffer) (bufferLength exampleBuffer)
                  then getChannelData exampleBuffer 0 ! i
                       * envelopeChannel 0.995
                           (getChannelData shortBuffer
                              (0 mod numberOfChannels shortBuffer)) ! i
                  else 0)
            [0..<bufferLength exampleBuffer]"
proof -
  have n: "(0::nat) < numberOfChannels exampleBuffer"
    by (simp add: exampleBuffer_def numberOfChannels_def)
  have l: "bufferLength exampleBuffer = 2" by (simp add: exampleBuffer_def)
  from amplitude_mapping_result [OF wf_shortBuffer wf_exampleBuffer] n l
  show ?thesis using wf_shortBuffer wf_exampleBuffer by simp
qed

subsection \<open>Transients\<close>

lemma chunkEnergies_index:
  "k < length (chunkEnergies data i) \<Longrightarrow> i + k * 512 < length data"
proof (induction data i arbitrary: k rule: chunkEnergies.induct)
  case (1 data i)
  show ?case
  proof (cases "i < length data")
    case False
    with "1.prems" show ?thesis by (simp add: chunkEnergies.simps [of data i])
  next
    case True
    show ?thesis
    proof (cases k)
      case 0
      with True show ?thesis by simp
    next
      case (Suc k')
      with True "1.prems" have "k' < length (chunkEnergies data (i + 512))"
        by (simp add: chunkEnergies.simps [of data i] Let_def)
      from "1.IH" [OF True refl refl this] Suc show ?thesis by simp
    qed
  qed
qed

lemma chunkEnergies_nonempty: "i < length data \<Longrightarrow> chunkEnergies data i \<noteq> []"
  by (simp add: chunkEnergies.simps [of data i] Let_def)

lemma transients_fold_invariant:
  assumes "1 \<le> m"
  shows "let st = fold (transientStep energies threshold d) [1..<m] ([0], 0) in
         fst st \<noteq> [] \<and> hd (fst st) = 0 \<and> last (fst st) = snd st
         \<and> (\<forall>x\<in>set (fst st). x \<le> snd st)
         \<and> sorted_wrt (<) (fst st)
         \<and> sorted_wrt (\<lambda>a b. d < int b - int a) (fst st)
         \<and> snd st \<le> 512 * (m - 1)"
  using assms
proof (induction m rule: dec_induct)
  case base
  show ?case by simp
next
  case (step m)
  define st where "st = fold (transientStep energies threshold d) [1..<m] ([0], 0)"
  from step.IH have IH: "fst st \<noteq> []" "hd (fst st) = 0" "last (fst st) = snd st"
    "\<forall>x\<in>set (fst st). x \<le> snd st" "sorted_wrt (<) (fst st)"
    "sorted_wrt (\<lambda>a b. d < int b - int a) (fst st)" "snd st \<le> 512 * (m - 1)"
    by (simp_all add: st_def Let_def)
  have f: "fold (transientStep energies threshold d) [1..<Suc m] ([0], 0)
      = transientStep energies threshold d m st"
    using step.hyps by (simp add: st_def)
  have lt: "snd st < m * 512" using IH(7) step.hyps by simp
  show ?case
  proof (cases "energies ! m > energies ! (m - 1) * threshold
                \<and> int (m * 512) - int (snd st) > d")
    case False
    then have "transientStep energies threshold d m st = st"
      by (auto simp: transientStep_def Let_def)
    with IH lt show ?thesis unfolding f by (simp add: Let_def)
  next
    case True
    then have t: "transientStep energies threshold d m st = (fst st @ [m * 512], m * 512)"
      by (simp add: transientStep_def Let_def)
    have a: "\<forall>x\<in>set (fst st). x < m * 512" using IH(4) lt by auto
    have b: "\<forall>x\<in>set (fst st). d < int (m * 512) - int x"
    proof
      fix x assume "x \<in> set (fst st)"
      with IH(4) have "x \<le> snd st" by simp
      with True show "d < int (m * 512) - int x" by linarith
    qed
    show ?thesis unfolding f t using IH a b
      by (auto simp: Let_def sorted_wrt_append less_imp_le)
  qed
qed

lemma sorted_wrt_butlast: "sorted_wrt P xs \<Longrightarrow> sorted_wrt P (butlast xs)"
  by (simp add: butlast_conv_take sorted_wrt_take)

text \<open>
  Claim C7, as stated, fails: the final frame is appended without the separation check. On a
  silent buffer of 2 frames at 44100 Hz the result is \<open>[0, 1]\<close>, two entries 1 frame apart,
  while \<open>minSeparationMs = 50\<close> is 2205 frames.
\<close>

theorem detectTransients_separation_counterexample:
  "detectTransients silentBuffer 1.8 50 = [0, 1]
   \<and> int 1 - int 0 < \<lfloor>sampleRate silentBuffer * (50 / 1000)\<rfloor>"
  by (simp add: detectTransients_def silentBuffer_def getChannelData_def
      chunkEnergies.simps Let_def)

text \<open>
  Claim C7, amended. For every buffer, \<open>detectTransients\<close> returns a strictly ascending list of
  frame indices that starts with frame 0 and ends with the final frame of the buffer, and any
  two entries other than the final one are more than \<open>minSeparationMs\<close> converted to frames
  (\<open>floor(sampleRate * minSeparationMs / 1000)\<close>) apart; the final entry may be closer to its
  predecessor.
\<close>

theorem detectTransients_structure:
  assumes "wf_buffer buffer"
  shows "detectTransients buffer threshold minSeparationMs \<noteq> []
    \<and> hd (detectTransients buffer threshold minSeparationMs) = 0
    \<and> last (detectTransients buffer threshold minSeparationMs) = bufferLength buffer - 1
    \<and> sorted_wrt (<) (detectTransients buffer threshold minSeparationMs)
    \<and> sorted_wrt (\<lambda>a b. \<lfloor>sampleRate buffer * (minSeparationMs / 1000)\<rfloor> < int b - int a)
         (butlast (detectTransients buffer threshold minSeparationMs))"
proof -
  define data where "data = getChannelData buffer 0"
  define d where "d = \<lfloor>sampleRate buffer * (minSeparationMs / 1000)\<rfloor>"
  define energies where "energies = chunkEnergies data 0"
  define st where "st = fold (transientStep energies threshold d) [1..<length energies] ([0], 0)"
  have n: "length data = bufferLength buffer" "0 < length data"
    using assms wf_buffer_channel_length [of buffer 0]
    by (simp_all add: data_def wf_buffer_def)
  have m: "1 \<le> length energies"
    using chunkEnergies_nonempty [of 0 data] n
    by (cases energies) (simp_all add: energies_def)
  from transients_fold_invariant [OF m, of energies threshold d]
  have inv: "fst st \<noteq> []" "hd (fst st) = 0" "last (fst st) = snd st"
    "\<forall>x\<in>set (fst st). x \<le> snd st" "sorted_wrt (<) (fst st)"
    "sorted_wrt (\<lambda>a b. d < int b - int a) (fst st)" "snd st \<le> 512 * (length energies - 1)"
    by (simp_all add: st_def Let_def)
  have "0 + (length energies - 1) * 512 < length data"
    using m by (intro chunkEnergies_index) (simp add: energies_def)
  with inv(7) have le: "snd st \<le> length data - 1" by simp
  have dt: "detectTransients buffer threshold minSeparationMs =
      (if int (last (fst st)) < int (length data) - 1
       then fst st @ [length data - 1] else fst st)"
    by (simp add: detectTransients_def Let_def data_def d_def energies_def st_def)
  show ?thesis
  proof (cases "int (last (fst st)) < int (length data) - 1")
    case True
    then have "\<forall>x\<in>set (fst st). x < length data - 1"
      using inv(3,4) by auto
    with True inv n show ?thesis
      unfolding dt d_def [symmetric] by (simp add: sorted_wrt_append)
  next
    case False
    with le inv(3) n have "last (fst st) = length data - 1" by simp
    with False inv n show ?thesis
      unfolding dt d_def [symmetric] by (simp add: sorted_wrt_butlast)
  qed
qed

theorem detectTransients_structure_witness:
  "wf_buffer silentBuffer
   \<and> hd (detectTransients silentBuffer 1.8 50) = 0
   \<and> last (detectTransients silentBuffer 1.8 50) = bufferLength silentBuffer - 1
   \<and> sorted_wrt (<) (detectTransients silentBuffer 1.8 50)"
  using detectTransients_structure [OF wf_silentBuffer, of "1.8" 50] wf_silentBuffer
  by blast

subsection \<open>Surface translation\<close>

text \<open>
  Claim C9. For every source and target buffer (and every sequence of random numbers and every
  parameter record), the buffer returned by \<open>applySurfaceTranslationMapping\<close> has the frame
  length of the source, exactly one channel, which holds that many frames, and the sample
  rate of the source.
\<close>

theorem surface_translation_shape:
  "bufferLength (fst (applySurfaceTranslationMapping random sourceBuffer targetBuffer params))
     = bufferLength sourceBuffer
   \<and> numberOfChannels
       (fst (applySurfaceTranslationMapping random sourceBuffer targetBuffer params)) = 1
   \<and> length (getChannelData
       (fst (applySurfaceTranslationMapping random sourceBuffer targetBuffer params)) 0)
     = bufferLength sourceBuffer
   \<and> sampleRate (fst (applySurfaceTranslationMapping random sourceBuffer targetBuffer params))
     = sampleRate sourceBuffer"
  by (simp add: applySurfaceTranslationMapping_def Let_def numberOfChannels_def
      getChannelData_def)

subsection \<open>The transform of silence\<close>

lemma log2size_power: "log2size (2 ^ L) = L"
proof (induction L)
  case 0
  show ?case by (simp add: log2size.simps)
next
  case (Suc L)
  have "\<not> (2::nat) ^ Suc L < 2" by simp
  then have "log2size (2 ^ Suc L) = Suc (log2size (2 ^ Suc L div 2))"
    by (subst log2size.simps) (simp only: if_False)
  with Suc show ?case by simp
qed

lemma bitReverseAt_less: "bitReverseAt l i < 2 ^ l"
proof -
  have "fold (\<lambda>j p. if (drop_bit j i) AND 1 \<noteq> 0 then p OR push_bit (l - 1 - j) 1 else p) js p
      < 2 ^ l" if "p < 2 ^ l" "\<forall>j\<in>set js. j < l" for js and p :: nat
    using that
  proof (induction js arbitrary: p)
    case Nil
    then show ?case by simp
  next
    case (Cons j js)
    from Cons.prems have j: "j < l" by simp
    then have "(2::nat) ^ (l - 1 - j) < 2 ^ l" by (intro power_strict_increasing) auto
    then have q: "push_bit (l - 1 - j) (1::nat) < 2 ^ l" by (simp add: push_bit_eq_mult)
    have "take_bit l (p OR push_bit (l - 1 - j) 1)
        = take_bit l p OR take_bit l (push_bit (l - 1 - j) 1)"
      by (rule take_bit_or)
    also have "\<dots> = p OR push_bit (l - 1 - j) 1"
      by (simp only: take_bit_nat_eq_self [OF Cons.prems(1)] take_bit_nat_eq_self [OF q])
    finally have "p OR push_bit (l - 1 - j) 1 < 2 ^ l"
      by (simp only: take_bit_nat_eq_self_iff)
    with Cons show ?case by simp
  qed
  then show ?thesis by (simp add: bitReverseAt_def)
qed

lemma replicate_update_same: "(replicate n x)[k := x] = replicate n x"
proof (cases "k < n")
  case True
  then have "replicate n x ! k = x" by simp
  then show ?thesis using list_update_id [of "replicate n x" k] by simp
next
  case False
  then show ?thesis by (simp add: list_update_beyond)
qed

lemma swap_zero: "i < n \<Longrightarrow> j < n \<Longrightarrow> swap i j (replicate n 0) = replicate n 0"
  by (simp add: swap_def replicate_update_same)

lemma fold_fixed: "(\<And>x. x \<in> set xs \<Longrightarrow> f x s = s) \<Longrightarrow> fold f xs s = s"
  by (induction xs) simp_all

lemma permute_zero:
  "permute (2 ^ L) (replicate (2 ^ L) 0, replicate (2 ^ L) 0)
     = (replicate (2 ^ L) 0, replicate (2 ^ L) 0)"
  unfolding permute_def
proof (rule fold_fixed)
  fix i assume "i \<in> set [0..<2 ^ L]"
  then have i: "i < 2 ^ L" by simp
  then have "bitReverse (2 ^ L) ! i < 2 ^ L"
    by (simp add: bitReverse_def log2size_power bitReverseAt_less)
  with i show "permute_step (2 ^ L) i (replicate (2 ^ L) 0, replicate (2 ^ L) 0)
      = (replicate (2 ^ L) 0, replicate (2 ^ L) 0)"
    by (simp add: permute_step_def Let_def swap_zero)
qed

lemma butterfly_zero:
  "i + j + len div 2 < sz \<Longrightarrow>
   butterfly sz invert len i j (replicate sz 0, replicate sz 0) = (replicate sz 0, replicate sz 0)"
  by (simp add: butterfly_def Let_def replicate_update_same)

lemma fft_blocks_zero:
  assumes "len dvd sz" "len dvd i"
  shows "fft_blocks sz invert len i (replicate sz 0, replicate sz 0)
    = (replicate sz 0, replicate sz 0)"
  using assms
proof (induction i rule: measure_induct_rule [where f = "\<lambda>i. sz - i"])
  case (less i)
  show ?case
  proof (cases "i < sz \<and> 0 < len")
    case False
    show ?thesis by (subst fft_blocks.simps) (simp only: False if_False)
  next
    case True
    from less.prems(1) obtain a where a: "sz = len * a" by (rule dvdE)
    from less.prems(2) obtain b where b: "i = len * b" by (rule dvdE)
    note ab = a b
    with True have "b < a" by simp
    then have "Suc b \<le> a" by simp
    then have "len * Suc b \<le> len * a" by (rule mult_le_mono2)
    with ab have le: "i + len \<le> sz" by simp
    have inner: "fold (butterfly sz invert len i) [0..<len div 2]
        (replicate sz 0, replicate sz 0) = (replicate sz 0, replicate sz 0)"
    proof (rule fold_fixed)
      fix j assume "j \<in> set [0..<len div 2]"
      then have "j + len div 2 < len" by simp
      with le have "i + j + len div 2 < sz" by simp
      then show "butterfly sz invert len i j (replicate sz 0, replicate sz 0)
          = (replicate sz 0, replicate sz 0)"
        by (rule butterfly_zero)
    qed
    have "fft_blocks sz invert len (i + len) (replicate sz 0, replicate sz 0)
        = (replicate sz 0, replicate sz 0)"
      using True less.prems by (intro less.IH) auto
    then show ?thesis by (subst fft_blocks.simps) (simp add: True inner)
  qed
qed

lemma fft_stages_zero:
  "fft_stages (2 ^ L) invert (2 ^ s) (replicate (2 ^ L) 0, replicate (2 ^ L) 0)
    = (replicate (2 ^ L) 0, replicate (2 ^ L) 0)"
proof (induction s rule: measure_induct_rule [where f = "\<lambda>s. Suc L - s"])
  case (less s)
  show ?case
  proof (cases "(2::nat) ^ s \<le> 2 ^ L")
    case False
    then have "\<not> ((2::nat) ^ s \<le> 2 ^ L \<and> (0::nat) < 2 ^ s)" by simp
    then show ?thesis by (subst fft_stages.simps) (simp only: if_False)
  next
    case True
    then have sL: "s \<le> L" by simp
    then have "(2::nat) ^ s dvd 2 ^ L" by (rule le_imp_power_dvd)
    then have blocks: "fft_blocks (2 ^ L) invert (2 ^ s) 0 (replicate (2 ^ L) 0, replicate (2 ^ L) 0)
        = (replicate (2 ^ L) 0, replicate (2 ^ L) 0)"
      by (intro fft_blocks_zero) simp_all
    have "fft_stages (2 ^ L) invert (2 ^ Suc s) (replicate (2 ^ L) 0, replicate (2 ^ L) 0)
        = (replicate (2 ^ L) 0, replicate (2 ^ L) 0)"
      using sL by (intro less.IH) simp
    moreover have "(2::nat) ^ s \<le> 2 ^ L \<and> (0::nat) < 2 ^ s" using True by simp
    ultimately show ?thesis
      by (subst fft_stages.simps) (simp add: blocks)
  qed
qed

lemma fft_zero:
  "fft (2 ^ L) (replicate (2 ^ L) 0, replicate (2 ^ L) 0) invert
    = (replicate (2 ^ L) 0, replicate (2 ^ L) 0)"
  using fft_stages_zero [of L invert 1]
  by (simp add: fft_def permute_zero Let_def)

subsection \<open>Peak detection on silence\<close>

lemma getFFT_8192: "getFFT 8192 = Inr (fft 8192)"
proof -
  have "\<exists>k. (8192::int) = 2 ^ k" by (rule exI [of _ 13]) simp
  then show ?thesis by (simp add: getFFT_int32)
qed

lemma all_zero_replicate: "\<forall>x\<in>set xs. x = (0::real) \<Longrightarrow> xs = replicate (length xs) 0"
  by (induction xs) simp_all

lemma loadChunk_zero:
  assumes "\<forall>x\<in>set data. x = 0"
  shows "loadChunk n data = replicate n 0"
proof -
  define chunk where "chunk = (if length data > n then take n data else data)"
  have le: "length chunk \<le> n" by (simp add: chunk_def)
  have "\<forall>x\<in>set chunk. x = 0"
    using assms by (auto simp: chunk_def dest: in_set_takeD)
  then have "chunk = replicate (length chunk) 0" by (rule all_zero_replicate)
  then have "chunk @ drop (length chunk) (replicate n 0)
      = replicate (length chunk) 0 @ replicate (n - length chunk) 0"
    by simp
  also have "\<dots> = replicate n 0"
    using le by (simp add: replicate_add [symmetric])
  finally show ?thesis by (simp add: loadChunk_def chunk_def Let_def)
qed

lemma findPeaks_flat:
  assumes "\<forall>m\<in>set magnitudes. mag m = 0"
  shows "findPeaks magnitudes = []"
proof -
  have "\<not> (mag (magnitudes ! i) > mag (magnitudes ! (i - 1))
          \<and> mag (magnitudes ! i) > mag (magnitudes ! (i + 1)))"
    if "i \<in> set [1..<length magnitudes - 1]" for i
  proof -
    from that have "i < length magnitudes" "i - 1 < length magnitudes" by auto
    with assms have "mag (magnitudes ! i) = 0" "mag (magnitudes ! (i - 1)) = 0"
      by (auto simp: all_set_conv_all_nth)
    then show ?thesis by simp
  qed
  then show ?thesis by (simp add: findPeaks_def filter_empty_conv)
qed

lemma topFrequencies_Nil: "topFrequencies n [] = []"
  by (simp add: topFrequencies_def js_slice0_def Let_def)

lemma silent_spectrum:
  assumes "\<forall>x\<in>set data. x = 0"
  shows "fft 8192 (loadChunk 8192 data, replicate 8192 0) False
    = (replicate 8192 0, replicate 8192 0)"
proof -
  have "(8192::nat) = 2 ^ 13" by simp
  then show ?thesis
    using fft_zero [of 13 False] by (simp only: loadChunk_zero [OF assms])
qed

lemma detectHarmonics_silence:
  assumes "\<forall>x\<in>set (getChannelData buffer 0). x = 0"
  shows "detectHarmonics buffer n rate = Inr []"
proof -
  have "findPeaks (map (\<lambda>i. \<lparr>freq = real i * rate / 8192,
      mag = sqrt ((replicate 8192 (0::real) ! i)\<^sup>2 + (replicate 8192 (0::real) ! i)\<^sup>2)\<rparr>)
      [1..<8192 div 2]) = []"
    by (rule findPeaks_flat) auto
  then show ?thesis
    by (simp add: detectHarmonics_def getFFT_8192 silent_spectrum [OF assms] Let_def
        topFrequencies_Nil)
qed

lemma detectFormants_silence:
  assumes "\<forall>x\<in>set (getChannelData buffer 0). x = 0"
  shows "detectFormants buffer n rate = Inr []"
proof -
  have "findPeaks (map (\<lambda>i. \<lparr>freq = real i * rate / 8192,
      mag = sqrt ((replicate 8192 (0::real) ! i)\<^sup>2 + (replicate 8192 (0::real) ! i)\<^sup>2)\<rparr>)
      (filter (\<lambda>i. real i * rate / 8192 \<ge> 300 \<and> real i * rate / 8192 \<le> 5000)
         [1..<8192 div 2])) = []"
    by (rule findPeaks_flat) auto
  then show ?thesis
    by (simp add: detectFormants_def getFFT_8192 silent_spectrum [OF assms] Let_def
        topFrequencies_Nil)
qed

text \<open>
  Claim C3. When every sample of the source buffer is 0, \<open>applyHarmonicImprinting\<close> and
  \<open>applyFormantShifting\<close> return the target buffer itself, for every target buffer, every
  parameter record and every host; they do not raise.
\<close>

theorem silence_passthrough:
  assumes "wf_buffer sourceBuffer"
    and "list_all (list_all (\<lambda>x. x = 0)) (channelData sourceBuffer)"
  shows "applyHarmonicImprinting h sourceBuffer targetBuffer params = Inr targetBuffer
    \<and> applyFormantShifting h sourceBuffer targetBuffer params = Inr targetBuffer"
proof -
  from assms(1) have "getChannelData sourceBuffer 0 \<in> set (channelData sourceBuffer)"
    by (simp add: wf_buffer_def numberOfChannels_def getChannelData_def)
  with assms(2) have z: "\<forall>x\<in>set (getChannelData sourceBuffer 0). x = 0"
    by (simp add: list_all_iff)
  show ?thesis
    by (simp add: applyHarmonicImprinting_def applyFormantShifting_def
        detectHarmonics_silence [OF z] detectFormants_silence [OF z])
qed

theorem silence_passthrough_witness:
  "wf_buffer silentBuffer
   \<and> list_all (list_all (\<lambda>x. x = 0)) (channelData silentBuffer)
   \<and> applyHarmonicImprinting silentHost silentBuffer exampleBuffer defaultParams
       = Inr exampleBuffer
   \<and> applyFormantShifting silentHost silentBuffer exampleBuffer defaultParams
       = Inr exampleBuffer"
proof -
  have z: "list_all (list_all (\<lambda>x. x = 0)) (channelData silentBuffer)"
    by (simp add: silentBuffer_def)
  from silence_passthrough [OF wf_silentBuffer z, of silentHost exampleBuffer defaultParams]
  show ?thesis using wf_silentBuffer z by simp
qed

subsection \<open>Morphing\<close>

text \<open>
  Claim C6, as stated, fails: the morph renders into a context as long as the longer of the two
  results. With Surface Translation as operator A (1 frame, the length of the source) and
  Amplitude Mapping as operator B (2 frames, the length of the target), the morph at position 0
  has 2 frames, while operator A alone returns 1 frame.
\<close>

theorem morph_endpoint_counterexample:
  "bufferOf (run silentHost zeroRandom shortBuffer exampleBuffer (morphParams 0)
      SURFACE_TRANSLATE)
     = Inr \<lparr>channelData = [[1 / 2]], bufferLength = 1, sampleRate = 44100\<rparr>
   \<and> bufferOf (applyTransformationMorph silentHost zeroRandom shortBuffer exampleBuffer
        SURFACE_TRANSLATE AMPLITUDE (morphParams 0))
     = Inr \<lparr>channelData = [[1 / 2, 0]], bufferLength = 2, sampleRate = 44100\<rparr>
   \<and> bufferOf (applyTransformationMorph silentHost zeroRandom shortBuffer exampleBuffer
        SURFACE_TRANSLATE AMPLITUDE (morphParams 0))
     \<noteq> bufferOf (run silentHost zeroRandom shortBuffer exampleBuffer (morphParams 0)
        SURFACE_TRANSLATE)"
proof -
  have a: "applySurfaceTranslationMapping zeroRandom shortBuffer exampleBuffer (morphParams 0)
      = (\<lparr>channelData = [[1 / 2]], bufferLength = 1, sampleRate = 44100\<rparr>, zeroRandom)"
    by (simp add: applySurfaceTranslationMapping_def surfaceSample_def js_round_def
        shortBuffer_def exampleBuffer_def morphParams_def defaultParams_def orDefault_def
        getChannelData_def zeroRandom_def Let_def)
  have b: "applyAmplitudeMapping shortBuffer exampleBuffer
      = \<lparr>channelData = [[1 / 2, 0]], bufferLength = 2, sampleRate = 44100\<rparr>"
    by (simp add: applyAmplitudeMapping_def applyEnvelopeToBuffer_def getAmplitudeEnvelope_def
      envelopeChannel_def normalizeEnvelope_def maxVal_def shortBuffer_def exampleBuffer_def
      numberOfChannels_def getChannelData_def Let_def upt_0_2)
  have ra: "run silentHost zeroRandom shortBuffer exampleBuffer (morphParams 0) SURFACE_TRANSLATE
      = Inr (\<lparr>channelData = [[1 / 2]], bufferLength = 1, sampleRate = 44100\<rparr>, zeroRandom)"
    by (simp add: run_def a)
  have rb: "run silentHost zeroRandom shortBuffer exampleBuffer (morphParams 0) AMPLITUDE
      = Inr (\<lparr>channelData = [[1 / 2, 0]], bufferLength = 2, sampleRate = 44100\<rparr>, zeroRandom)"
    by (simp add: run_def b)
  have pos: "orDefault (morphPosition (morphParams 0)) d = 0" for d
    by (simp add: morphParams_def defaultParams_def orDefault_def)
  have m: "applyTransformationMorph silentHost zeroRandom shortBuffer exampleBuffer
        SURFACE_TRANSLATE AMPLITUDE (morphParams 0)
      = Inr (\<lparr>channelData = [[1 / 2, 0]], bufferLength = 2, sampleRate = 44100\<rparr>, zeroRandom)"
    by (simp add: applyTransformationMorph_def ra rb pos renderCrossfade_def played_def
        sampleAt_def numberOfChannels_def Let_def upt_0_2)
  show ?thesis by (simp add: ra m bufferOf_def)
qed

lemma map_nth_upt: "length xs = n \<Longrightarrow> map (\<lambda>i. xs ! i) [0..<n] = xs"
  by (auto simp: list_eq_iff_nth_eq)

lemma renderCrossfade_first:
  assumes "list_all (\<lambda>ch. length ch = bufferLength a) (channelData a)"
  shows "renderCrossfade h (numberOfChannels a) (bufferLength a) (sampleRate a) a 1 b 0 = a"
proof -
  have ch: "map (\<lambda>i. 1 * sampleAt (played h (numberOfChannels a) (sampleRate a) a) c i
                     + 0 * sampleAt (played h (numberOfChannels a) (sampleRate a) b) c i)
              [0..<bufferLength a] = channelData a ! c"
    if "c < numberOfChannels a" for c
  proof -
    from that assms have l: "length (channelData a ! c) = bufferLength a"
      by (simp add: list_all_length numberOfChannels_def)
    have "map (\<lambda>i. 1 * sampleAt (played h (numberOfChannels a) (sampleRate a) a) c i
                     + 0 * sampleAt (played h (numberOfChannels a) (sampleRate a) b) c i)
              [0..<bufferLength a] = map (\<lambda>i. channelData a ! c ! i) [0..<bufferLength a]"
      using that l by (simp add: played_def sampleAt_def numberOfChannels_def)
    also have "\<dots> = channelData a ! c" using l by (rule map_nth_upt)
    finally show ?thesis .
  qed
  have "map (\<lambda>c. map (\<lambda>i. 1 * sampleAt (played h (numberOfChannels a) (sampleRate a) a) c i
                     + 0 * sampleAt (played h (numberOfChannels a) (sampleRate a) b) c i)
              [0..<bufferLength a]) [0..<numberOfChannels a]
      = map (\<lambda>c. channelData a ! c) [0..<numberOfChannels a]"
    using ch by simp
  also have "\<dots> = channelData a"
    by (rule map_nth_upt) (simp add: numberOfChannels_def)
  finally show ?thesis by (simp add: renderCrossfade_def)
qed

lemma renderCrossfade_second:
  assumes "list_all (\<lambda>ch. length ch = bufferLength b) (channelData b)"
  shows "renderCrossfade h (numberOfChannels b) (bufferLength b) (sampleRate b) a 0 b 1 = b"
proof -
  have ch: "map (\<lambda>i. 0 * sampleAt (played h (numberOfChannels b) (sampleRate b) a) c i
                     + 1 * sampleAt (played h (numberOfChannels b) (sampleRate b) b) c i)
              [0..<bufferLength b] = channelData b ! c"
    if "c < numberOfChannels b" for c
  proof -
    from that assms have l: "length (channelData b ! c) = bufferLength b"
      by (simp add: list_all_length numberOfChannels_def)
    have "map (\<lambda>i. 0 * sampleAt (played h (numberOfChannels b) (sampleRate b) a) c i
                     + 1 * sampleAt (played h (numberOfChannels b) (sampleRate b) b) c i)
              [0..<bufferLength b] = map (\<lambda>i. channelData b ! c ! i) [0..<bufferLength b]"
      using that l by (simp add: played_def sampleAt_def numberOfChannels_def)
    also have "\<dots> = channelData b ! c" using l by (rule map_nth_upt)
    finally show ?thesis .
  qed
  have "map (\<lambda>c. map (\<lambda>i. 0 * sampleAt (played h (numberOfChannels b) (sampleRate b) a) c i
                     + 1 * sampleAt (played h (numberOfChannels b) (sampleRate b) b) c i)
              [0..<bufferLength b]) [0..<numberOfChannels b]
      = map (\<lambda>c. channelData b ! c) [0..<numberOfChannels b]"
    using ch by simp
  also have "\<dots> = channelData b"
    by (rule map_nth_upt) (simp add: numberOfChannels_def)
  finally show ?thesis by (simp add: renderCrossfade_def)
qed

text \<open>
  Claim C6, amended. Let operator A return \<open>resultA\<close> and operator B, run after it on the same
  inputs, return \<open>resultB\<close>. The morph has the length of the longer result, the channel count
  of the result with fewer channels and the sample rate of \<open>resultA\<close>. With \<open>morphPosition = 0\<close>
  it is exactly \<open>resultA\<close> when \<open>resultB\<close> is not longer than \<open>resultA\<close> and has at least as many
  channels; with \<open>morphPosition = 1\<close> it is exactly \<open>resultB\<close> when \<open>resultA\<close> is not longer than
  \<open>resultB\<close>, has at least as many channels and has the same sample rate.
\<close>

theorem morph_endpoint_identity:
  assumes "run h random sourceBuffer targetBuffer params transformA = Inr (resultA, random1)"
    and "run h random1 sourceBuffer targetBuffer params transformB = Inr (resultB, random2)"
    and "list_all (\<lambda>ch. length ch = bufferLength resultA) (channelData resultA)"
    and "list_all (\<lambda>ch. length ch = bufferLength resultB) (channelData resultB)"
  shows "(\<exists>r. bufferOf (applyTransformationMorph h random sourceBuffer targetBuffer
                 transformA transformB params) = Inr r
            \<and> bufferLength r = max (bufferLength resultA) (bufferLength resultB)
            \<and> numberOfChannels r = min (numberOfChannels resultA) (numberOfChannels resultB)
            \<and> sampleRate r = sampleRate resultA)
    \<and> (morphPosition params = Some 0 \<and> bufferLength resultB \<le> bufferLength resultA
        \<and> numberOfChannels resultA \<le> numberOfChannels resultB \<longrightarrow>
        bufferOf (applyTransformationMorph h random sourceBuffer targetBuffer
          transformA transformB params) = Inr resultA)
    \<and> (morphPosition params = Some 1 \<and> bufferLength resultA \<le> bufferLength resultB
        \<and> numberOfChannels resultB \<le> numberOfChannels resultA
        \<and> sampleRate resultB = sampleRate resultA \<longrightarrow>
        bufferOf (applyTransformationMorph h random sourceBuffer targetBuffer
          transformA transformB params) = Inr resultB)"
proof (intro conjI impI)
  show "\<exists>r. bufferOf (applyTransformationMorph h random sourceBuffer targetBuffer
                 transformA transformB params) = Inr r
            \<and> bufferLength r = max (bufferLength resultA) (bufferLength resultB)
            \<and> numberOfChannels r = min (numberOfChannels resultA) (numberOfChannels resultB)
            \<and> sampleRate r = sampleRate resultA"
    by (simp add: applyTransformationMorph_def assms(1,2) bufferOf_def Let_def
        renderCrossfade_def numberOfChannels_def)
next
  assume "morphPosition params = Some 0 \<and> bufferLength resultB \<le> bufferLength resultA
        \<and> numberOfChannels resultA \<le> numberOfChannels resultB"
  then show "bufferOf (applyTransformationMorph h random sourceBuffer targetBuffer
          transformA transformB params) = Inr resultA"
    using renderCrossfade_first [OF assms(3), of h resultB]
    by (simp add: applyTransformationMorph_def assms(1,2) bufferOf_def Let_def
        orDefault_def max_absorb1 min_absorb1)
next
  assume "morphPosition params = Some 1 \<and> bufferLength resultA \<le> bufferLength resultB
        \<and> numberOfChannels resultB \<le> numberOfChannels resultA
        \<and> sampleRate resultB = sampleRate resultA"
  then show "bufferOf (applyTransformationMorph h random sourceBuffer targetBuffer
          transformA transformB params) = Inr resultB"
    using renderCrossfade_second [OF assms(4), of h resultA]
    by (simp add: applyTransformationMorph_def assms(1,2) bufferOf_def Let_def
        orDefault_def max_absorb2 min_absorb2)
qed


lemma applyEnvelopeToBuffer_lengths:
  "list_all (\<lambda>ch. length ch = bufferLength (applyEnvelopeToBuffer e t))
     (channelData (applyEnvelopeToBuffer e t))"
  by (simp add: applyEnvelopeToBuffer_def list_all_iff Let_def)

theorem morph_endpoint_identity_witness:
  "bufferOf (applyTransformationMorph silentHost zeroRandom exampleBuffer exampleBuffer
      AMPLITUDE RHYTHMIC (morphParams 0))
     = Inr (applyAmplitudeMapping exampleBuffer exampleBuffer)
   \<and> bufferOf (applyTransformationMorph silentHost zeroRandom exampleBuffer exampleBuffer
      AMPLITUDE RHYTHMIC (morphParams 1))
     = Inr (applyRhythmicGating exampleBuffer exampleBuffer (morphParams 1))"
proof -
  let ?a = "applyAmplitudeMapping exampleBuffer exampleBuffer"
  let ?b = "\<lambda>p. applyRhythmicGating exampleBuffer exampleBuffer (morphParams p)"
  have ra: "run silentHost zeroRandom exampleBuffer exampleBuffer (morphParams p) AMPLITUDE
      = Inr (?a, zeroRandom)" for p
    by (simp add: run_def)
  have rb: "run silentHost zeroRandom exampleBuffer exampleBuffer (morphParams p) RHYTHMIC
      = Inr (?b p, zeroRandom)" for p
    by (simp add: run_def)
  have la: "list_all (\<lambda>ch. length ch = bufferLength ?a) (channelData ?a)"
    unfolding applyAmplitudeMapping_def by (rule applyEnvelopeToBuffer_lengths)
  have lb: "list_all (\<lambda>ch. length ch = bufferLength (?b p)) (channelData (?b p))" for p
    unfolding applyRhythmicGating_def Let_def by (rule applyEnvelopeToBuffer_lengths)
  have shape: "bufferLength (?b p) = bufferLength ?a" "numberOfChannels (?b p) = numberOfChannels ?a"
    "sampleRate (?b p) = sampleRate ?a" for p
    by (simp_all add: applyAmplitudeMapping_def applyRhythmicGating_def Let_def
        applyEnvelopeToBuffer_shape)
  have pos: "morphPosition (morphParams p) = Some p" for p
    by (simp add: morphParams_def)
  from morph_endpoint_identity [OF ra rb la lb, of 0] pos [of 0] shape [of 0]
  have first: "bufferOf (applyTransformationMorph silentHost zeroRandom exampleBuffer
      exampleBuffer AMPLITUDE RHYTHMIC (morphParams 0)) = Inr ?a"
    by simp
  from morph_endpoint_identity [OF ra rb la lb, of 1] pos [of 1] shape [of 1]
  have second: "bufferOf (applyTransformationMorph silentHost zeroRandom exampleBuffer
      exampleBuffer AMPLITUDE RHYTHMIC (morphParams 1)) = Inr (?b 1)"
    by simp
  from first second show ?thesis by simp
qed

subsection \<open>The frame of the operators\<close>

lemma unchanged_refl: "unchanged n hp hp"
  by (simp add: unchanged_def)

lemma unchanged_trans: "unchanged n a b \<Longrightarrow> unchanged n b c \<Longrightarrow> unchanged n a c"
  by (simp add: unchanged_def)

lemma unchanged_append: "n \<le> length hp \<Longrightarrow> unchanged n hp (hp @ xs)"
  by (simp add: unchanged_def)

lemma unchanged_update: "n \<le> r \<Longrightarrow> unchanged n hp (hp[r := x])"
  by (simp add: unchanged_def)

lemma unchanged_le: "unchanged n hp hp' \<Longrightarrow> n \<le> length hp \<Longrightarrow> n \<le> length hp'"
  by (simp add: unchanged_def)

lemma unchanged_fold:
  assumes "\<And>x h. x \<in> set xs \<Longrightarrow> n \<le> length h \<Longrightarrow> unchanged n h (f x h)"
    and "n \<le> length hp"
  shows "unchanged n hp (fold f xs hp)"
  using assms
proof (induction xs arbitrary: hp)
  case Nil
  show ?case by (simp add: unchanged_refl)
next
  case (Cons x xs)
  have 1: "unchanged n hp (f x hp)" using Cons.prems by simp
  then have "n \<le> length (f x hp)" using Cons.prems(2) by (rule unchanged_le)
  then have "unchanged n (f x hp) (fold f xs (f x hp))"
    using Cons.prems(1) by (intro Cons.IH) simp_all
  with 1 show ?case by (simp add: unchanged_trans)
qed

lemma newFloat32Array_frame:
  assumes "newFloat32Array xs hp = (r, hp')" "n \<le> length hp"
  shows "unchanged n hp hp'" "n \<le> r"
  using assms by (auto simp: newFloat32Array_def unchanged_append)

lemma createBuffer_h_frame:
  assumes "createBuffer_h k len rate hp = (b, hp')" "n \<le> length hp"
  shows "unchanged n hp hp'" "length (channelRefs b) = k"
    "\<And>c. c < k \<Longrightarrow> n \<le> channelRefs b ! c"
  using assms by (auto simp: createBuffer_h_def unchanged_append)

lemma hostBuffer_frame: "n \<le> length hp \<Longrightarrow> unchanged n hp (snd (hostBuffer b hp))"
  by (simp add: hostBuffer_def unchanged_append)

lemma callFFT_h_frame:
  "n \<le> realRef \<Longrightarrow> n \<le> imagRef \<Longrightarrow> unchanged n hp (callFFT_h f realRef imagRef invert hp)"
  by (simp add: callFFT_h_def Let_def unchanged_def)

lemma getAmplitudeEnvelope_h_frame:
  assumes "n \<le> length hp"
  shows "unchanged n hp (snd (getAmplitudeEnvelope_h buffer smoothing hp))"
proof -
  obtain res hp1 where c: "createBuffer_h (length (channelRefs buffer)) (lengthOf buffer)
      (sampleRateOf buffer) hp = (res, hp1)"
    by (meson surj_pair)
  note cf = createBuffer_h_frame [OF c assms]
  have "unchanged n hp1 (fold (\<lambda>c h. h[channelRefs res ! c :=
            envelopeChannel smoothing (h ! (channelRefs buffer ! c))])
          [0..<length (channelRefs buffer)] hp1)"
    using cf(3) unchanged_le [OF cf(1) assms]
    by (intro unchanged_fold) (simp_all add: unchanged_update)
  with cf(1) show ?thesis
    by (simp add: getAmplitudeEnvelope_h_def c unchanged_trans)
qed

lemma applyEnvelopeToBuffer_h_frame:
  assumes "n \<le> length hp"
  shows "unchanged n hp (snd (applyEnvelopeToBuffer_h envelopeBuffer targetBuffer hp))"
proof -
  obtain res hp1 where c: "createBuffer_h (length (channelRefs targetBuffer))
      (lengthOf targetBuffer) (sampleRateOf targetBuffer) hp = (res, hp1)"
    by (meson surj_pair)
  note cf = createBuffer_h_frame [OF c assms]
  define step where "step = (\<lambda>channel (h::heap).
                   let targetData = h ! (channelRefs targetBuffer ! channel);
                       envelopeData = h ! (channelRefs envelopeBuffer
                                            ! (channel mod length (channelRefs envelopeBuffer)));
                       len = min (length targetData) (length envelopeData)
                   in h[channelRefs res ! channel :=
                          map (\<lambda>i. if i < len then targetData ! i * envelopeData ! i else 0)
                            [0..<lengthOf targetBuffer]])"
  have s: "unchanged n h (step channel h)" if "channel < length (channelRefs targetBuffer)"
    for channel h
    unfolding step_def Let_def using cf(3) [OF that] by (rule unchanged_update)
  have "unchanged n hp1 (fold step [0..<length (channelRefs targetBuffer)] hp1)"
    using unchanged_le [OF cf(1) assms] by (intro unchanged_fold) (simp_all add: s)
  with cf(1) have "unchanged n hp (fold step [0..<length (channelRefs targetBuffer)] hp1)"
    by (rule unchanged_trans)
  then show ?thesis
    unfolding applyEnvelopeToBuffer_h_def c prod.case snd_conv step_def .
qed

lemma applyAmplitudeMapping_h_frame:
  assumes "n \<le> length hp"
  shows "unchanged n hp (snd (applyAmplitudeMapping_h sourceBuffer targetBuffer hp))"
proof -
  obtain env hp1 where e: "getAmplitudeEnvelope_h sourceBuffer 0.995 hp = (env, hp1)"
    by (meson surj_pair)
  have 1: "unchanged n hp hp1"
    using getAmplitudeEnvelope_h_frame [OF assms, of sourceBuffer "0.995"] unfolding e by simp
  have "unchanged n hp1 (snd (applyEnvelopeToBuffer_h env targetBuffer hp1))"
    using unchanged_le [OF 1 assms] by (rule applyEnvelopeToBuffer_h_frame)
  with 1 show ?thesis
    unfolding applyAmplitudeMapping_h_def e by (simp add: unchanged_trans)
qed

lemma applyRhythmicGating_h_frame:
  assumes "n \<le> length hp"
  shows "unchanged n hp (snd (applyRhythmicGating_h sourceBuffer targetBuffer params hp))"
proof -
  define thr where "thr = orDefault (gateThreshold params) 0.2"
  obtain env hp1 where e: "getAmplitudeEnvelope_h sourceBuffer 0.998 hp = (env, hp1)"
    by (meson surj_pair)
  obtain gate hp2 where c: "createBuffer_h (length (channelRefs env)) (lengthOf env)
      (sampleRateOf env) hp1 = (gate, hp2)"
    by (meson surj_pair)
  define hp3 where "hp3 = fold (\<lambda>channel h. h[channelRefs gate ! channel :=
      map (\<lambda>e. if e > thr then 1 else 0) (h ! (channelRefs env ! channel))])
      [0..<length (channelRefs env)] hp2"
  have 1: "unchanged n hp hp1"
    using getAmplitudeEnvelope_h_frame [OF assms, of sourceBuffer "0.998"] unfolding e by simp
  note n1 = unchanged_le [OF 1 assms]
  note cf = createBuffer_h_frame [OF c n1]
  note n2 = unchanged_le [OF cf(1) n1]
  have 3: "unchanged n hp2 hp3"
    unfolding hp3_def using cf(3) n2
    by (intro unchanged_fold) (simp_all add: unchanged_update)
  note n3 = unchanged_le [OF 3 n2]
  have 4: "unchanged n hp3 (snd (applyEnvelopeToBuffer_h gate targetBuffer hp3))"
    using n3 by (rule applyEnvelopeToBuffer_h_frame)
  have "unchanged n hp (snd (applyEnvelopeToBuffer_h gate targetBuffer hp3))"
    using 1 cf(1) 3 4 by (blast intro: unchanged_trans)
  then show ?thesis
    unfolding applyRhythmicGating_h_def e Let_def by (simp add: c hp3_def thr_def)
qed

lemma applySurfaceTranslationMapping_h_frame:
  assumes "n \<le> length hp"
  shows "unchanged n hp
    (snd (applySurfaceTranslationMapping_h random sourceBuffer targetBuffer params hp))"
proof -
  obtain sortedRef hp1 where a: "newFloat32Array (hp ! (channelRefs targetBuffer ! 0)) hp
      = (sortedRef, hp1)"
    by (meson surj_pair)
  note af = newFloat32Array_frame [OF a assms]
  define hp2 where "hp2 = hp1[sortedRef := sort (hp1 ! sortedRef)]"
  have 2: "unchanged n hp1 hp2" unfolding hp2_def using af(2) by (rule unchanged_update)
  note n1 = unchanged_le [OF af(1) assms]
  note n2 = unchanged_le [OF 2 n1]
  obtain res hp3 where c: "createBuffer_h 1 (lengthOf sourceBuffer) (sampleRateOf sourceBuffer) hp2
      = (res, hp3)"
    by (meson surj_pair)
  note cf = createBuffer_h_frame [OF c n2]
  have 4: "unchanged n hp3 (hp3[channelRefs res ! 0 := xs])" for xs
    using cf(3) [of 0] by (simp add: unchanged_update)
  have "unchanged n hp (hp3[channelRefs res ! 0 := xs])" for xs
    using af(1) 2 cf(1) 4 [of xs] by (blast intro: unchanged_trans)
  then show ?thesis
    by (simp add: applySurfaceTranslationMapping_h_def a c Let_def hp2_def [symmetric]
        del: One_nat_def)
qed

lemma spectrumOfChunk_h_frame:
  assumes "n \<le> length hp"
  shows "unchanged n hp (snd (spectrumOfChunk_h fftN fftSize buffer hp))"
proof -
  define dataRef where "dataRef = channelRefs buffer ! 0"
  obtain chunkRef hp1 where a: "(if length (hp ! dataRef) > fftSize
            then newFloat32Array (take fftSize (hp ! dataRef)) hp
            else (dataRef, hp)) = (chunkRef, hp1)"
    by (meson surj_pair)
  have 1: "unchanged n hp hp1"
    using a assms by (auto simp: newFloat32Array_def unchanged_append unchanged_refl
        split: if_splits)
  note n1 = unchanged_le [OF 1 assms]
  obtain realRef hp2 where b: "newFloat32Array (replicate fftSize 0) hp1 = (realRef, hp2)"
    by (meson surj_pair)
  note bf = newFloat32Array_frame [OF b n1]
  note n2 = unchanged_le [OF bf(1) n1]
  define hp3 where "hp3 = hp2[realRef := hp2 ! chunkRef
                                          @ drop (length (hp2 ! chunkRef)) (hp2 ! realRef)]"
  have 3: "unchanged n hp2 hp3" unfolding hp3_def using bf(2) by (rule unchanged_update)
  note n3 = unchanged_le [OF 3 n2]
  obtain imagRef hp4 where c: "newFloat32Array (replicate fftSize 0) hp3 = (imagRef, hp4)"
    by (meson surj_pair)
  note cf = newFloat32Array_frame [OF c n3]
  have 5: "unchanged n hp4 (callFFT_h fftN realRef imagRef False hp4)"
    using bf(2) cf(2) by (rule callFFT_h_frame)
  have "unchanged n hp (callFFT_h fftN realRef imagRef False hp4)"
    using 1 bf(1) 3 cf(1) 5 by (blast intro: unchanged_trans)
  then show ?thesis
    unfolding spectrumOfChunk_h_def Let_def dataRef_def [symmetric] a prod.case b
      hp3_def [symmetric] c snd_conv .
qed

lemma detectHarmonics_h_frame:
  assumes "n \<le> length hp"
  shows "unchanged n hp (snd (detectHarmonics_h buffer k rate hp))"
proof (cases "getFFT 8192")
  case (Inl e)
  then show ?thesis by (simp add: detectHarmonics_h_def unchanged_refl)
next
  case (Inr f)
  obtain refs hp1 where s: "spectrumOfChunk_h f 8192 buffer hp = (refs, hp1)"
    by (meson surj_pair)
  have "unchanged n hp hp1"
    using spectrumOfChunk_h_frame [OF assms, of f 8192 buffer] by (simp add: s)
  then show ?thesis
    by (simp add: detectHarmonics_h_def Inr s Let_def split: prod.splits)
qed

lemma detectFormants_h_frame:
  assumes "n \<le> length hp"
  shows "unchanged n hp (snd (detectFormants_h buffer k rate hp))"
proof (cases "getFFT 8192")
  case (Inl e)
  then show ?thesis by (simp add: detectFormants_h_def unchanged_refl)
next
  case (Inr f)
  obtain refs hp1 where s: "spectrumOfChunk_h f 8192 buffer hp = (refs, hp1)"
    by (meson surj_pair)
  have "unchanged n hp hp1"
    using spectrumOfChunk_h_frame [OF assms, of f 8192 buffer] by (simp add: s)
  then show ?thesis
    by (simp add: detectFormants_h_def Inr s Let_def split: prod.splits)
qed

lemma windowedFrames_h_frame:
  assumes "windowedFrames_h fftSize windowRef sourceRef targetRef i hp
      = ((sourceReal, sourceImag, targetReal, targetImag), hp')"
    and "n \<le> length hp"
  shows "unchanged n hp hp'" "n \<le> sourceReal" "n \<le> sourceImag" "n \<le> targetReal"
    "n \<le> targetImag"
  using assms
  by (auto simp: windowedFrames_h_def newFloat32Array_def unchanged_def)

lemma maskedFrame_h_frame:
  assumes "maskedFrame_h fftSize sourceReal sourceImag targetReal targetImag hp
      = ((newReal, newImag), hp')"
    and "n \<le> length hp"
  shows "unchanged n hp hp'" "n \<le> newReal" "n \<le> newImag"
  using assms
  by (auto simp: maskedFrame_h_def newFloat32Array_def unchanged_def)

lemma overlapAdd_h_frame:
  "n \<le> resultRef \<Longrightarrow> unchanged n hp (overlapAdd_h fftSize windowRef newReal resultRef i hp)"
  unfolding overlapAdd_h_def by (rule unchanged_update)

lemma maskFrame_h_frame:
  assumes "n \<le> length hp" "n \<le> resultRef"
  shows "unchanged n hp (maskFrame_h fftN fftSize windowRef sourceRef targetRef resultRef i hp)"
proof -
  obtain sR sI tR tI hp1 where w: "windowedFrames_h fftSize windowRef sourceRef targetRef i hp
      = ((sR, sI, tR, tI), hp1)"
    by (metis surj_pair)
  note wf = windowedFrames_h_frame [OF w assms(1)]
  note n1 = unchanged_le [OF wf(1) assms(1)]
  define hp2 where "hp2 = callFFT_h fftN sR sI False hp1"
  have 2: "unchanged n hp1 hp2" unfolding hp2_def using wf(2,3) by (rule callFFT_h_frame)
  note n2 = unchanged_le [OF 2 n1]
  define hp3 where "hp3 = callFFT_h fftN tR tI False hp2"
  have 3: "unchanged n hp2 hp3" unfolding hp3_def using wf(4,5) by (rule callFFT_h_frame)
  note n3 = unchanged_le [OF 3 n2]
  obtain nR nI hp4 where m: "maskedFrame_h fftSize sR sI tR tI hp3 = ((nR, nI), hp4)"
    by (metis surj_pair)
  note mf = maskedFrame_h_frame [OF m n3]
  define hp5 where "hp5 = callFFT_h fftN nR nI True hp4"
  have 5: "unchanged n hp4 hp5" unfolding hp5_def using mf(2,3) by (rule callFFT_h_frame)
  have 6: "unchanged n hp5 (overlapAdd_h fftSize windowRef nR resultRef i hp5)"
    using assms(2) by (rule overlapAdd_h_frame)
  have "unchanged n hp (overlapAdd_h fftSize windowRef nR resultRef i hp5)"
    using wf(1) 2 3 mf(1) 5 6 by (blast intro: unchanged_trans)
  then show ?thesis
    unfolding maskFrame_h_def w prod.case hp2_def [symmetric] hp3_def [symmetric] m
      hp5_def [symmetric] .
qed

lemma maskFrames_h_frame:
  assumes "n \<le> length hp" "n \<le> resultRef"
  shows "unchanged n hp
    (maskFrames_h fftN fftSize hopSize len windowRef sourceRef targetRef resultRef i hp)"
  using assms
proof (induction fftN fftSize hopSize len windowRef sourceRef targetRef resultRef i hp
    rule: maskFrames_h.induct)
  case (1 fftN fftSize hopSize len windowRef sourceRef targetRef resultRef i hp)
  show ?case
  proof (cases "i + fftSize \<le> len \<and> 0 < hopSize")
    case False
    show ?thesis by (subst maskFrames_h.simps) (simp only: False if_False unchanged_refl)
  next
    case True
    let ?hp1 = "maskFrame_h fftN fftSize windowRef sourceRef targetRef resultRef i hp"
    have a: "unchanged n hp ?hp1" using "1.prems" by (rule maskFrame_h_frame)
    then have "n \<le> length ?hp1" using "1.prems"(1) by (rule unchanged_le)
    then have "unchanged n ?hp1
      (maskFrames_h fftN fftSize hopSize len windowRef sourceRef targetRef resultRef
        (i + hopSize) ?hp1)"
      using True "1.prems"(2) by (intro "1.IH") auto
    with a have "unchanged n hp
      (maskFrames_h fftN fftSize hopSize len windowRef sourceRef targetRef resultRef
        (i + hopSize) ?hp1)"
      by (rule unchanged_trans)
    then show ?thesis by (subst maskFrames_h.simps) (simp only: True if_True simp_thms)
  qed
qed

lemma applyFourierMasking_h_frame:
  assumes "n \<le> length hp"
  shows "unchanged n hp (snd (applyFourierMasking_h sourceBuffer targetBuffer hp))"
proof (cases "getFFT (int 2048)")
  case (Inl e)
  then show ?thesis by (simp add: applyFourierMasking_h_def unchanged_refl)
next
  case (Inr f)
  define len where "len = min (lengthOf sourceBuffer) (lengthOf targetBuffer)"
  obtain res hp1 where c: "createBuffer_h 1 len (sampleRateOf sourceBuffer) hp = (res, hp1)"
    by (meson surj_pair)
  note cf = createBuffer_h_frame [OF c assms]
  note n1 = unchanged_le [OF cf(1) assms]
  obtain windowRef hp2 where w: "newFloat32Array (fftWindow 2048) hp1 = (windowRef, hp2)"
    by (meson surj_pair)
  note wf = newFloat32Array_frame [OF w n1]
  note n2 = unchanged_le [OF wf(1) n1]
  have r: "n \<le> channelRefs res ! 0" using cf(3) [of 0] by simp
  have 3: "unchanged n hp2 (maskFrames_h f 2048 (2048 div 4) len windowRef
      (channelRefs sourceBuffer ! 0) (channelRefs targetBuffer ! 0) (channelRefs res ! 0) 0 hp2)"
    using n2 r by (rule maskFrames_h_frame)
  have "unchanged n hp (maskFrames_h f 2048 (2048 div 4) len windowRef
      (channelRefs sourceBuffer ! 0) (channelRefs targetBuffer ! 0) (channelRefs res ! 0) 0 hp2)"
    using cf(1) wf(1) 3 by (blast intro: unchanged_trans)
  then show ?thesis
    unfolding applyFourierMasking_h_def Let_def Inr sum.case len_def [symmetric] c prod.case
      w snd_conv .
qed

lemma unchanged_fold_snd:
  assumes "\<And>x st. x \<in> set xs \<Longrightarrow> n \<le> length (snd st) \<Longrightarrow> unchanged n (snd st) (snd (f x st))"
    and "n \<le> length (snd st0)"
  shows "unchanged n (snd st0) (snd (fold f xs st0))"
  using assms
proof (induction xs arbitrary: st0)
  case Nil
  show ?case by (simp add: unchanged_refl)
next
  case (Cons x xs)
  have 1: "unchanged n (snd st0) (snd (f x st0))" using Cons.prems by simp
  then have "n \<le> length (snd (f x st0))" using Cons.prems(2) by (rule unchanged_le)
  then have "unchanged n (snd (f x st0)) (snd (fold f xs (f x st0)))"
    using Cons.prems(1) by (intro Cons.IH) simp_all
  with 1 show ?case by (simp add: unchanged_trans)
qed

lemma applyDynamicRingModulation_h_frame:
  assumes "n \<le> length hp"
  shows "unchanged n hp (snd (applyDynamicRingModulation_h sourceBuffer targetBuffer params hp))"
proof -
  obtain env hp1 where e: "getAmplitudeEnvelope_h sourceBuffer 0.99 hp = (env, hp1)"
    by (meson surj_pair)
  have 1: "unchanged n hp hp1"
    using getAmplitudeEnvelope_h_frame [OF assms, of sourceBuffer "0.99"] unfolding e by simp
  note n1 = unchanged_le [OF 1 assms]
  obtain res hp2 where c: "createBuffer_h (length (channelRefs targetBuffer))
      (lengthOf targetBuffer) (sampleRateOf targetBuffer) hp1 = (res, hp2)"
    by (meson surj_pair)
  note cf = createBuffer_h_frame [OF c n1]
  note n2 = unchanged_le [OF cf(1) n1]
  define step where "step = (\<lambda>c (st :: real \<times> heap).
                                let h = snd st;
                                    ch = fold (ringModStep (orDefault (ringModBaseFreq params) 100)
                                                 (orDefault (ringModRange params) 1000)
                                                 (orDefault (ringModMix params) 0.5)
                                                 (sampleRateOf targetBuffer)
                                                 (h ! (channelRefs env ! 0))
                                                 (h ! (channelRefs targetBuffer ! c)))
                                           [0..<lengthOf targetBuffer] (fst st, [])
                                in (fst ch, h[channelRefs res ! c := snd ch]))"
  have s: "unchanged n (snd st) (snd (step c st))" if "c < length (channelRefs targetBuffer)"
    for c st
    unfolding step_def Let_def snd_conv using cf(3) [OF that] by (rule unchanged_update)
  have "unchanged n (snd (0::real, hp2))
      (snd (fold step [0..<length (channelRefs targetBuffer)] (0, hp2)))"
    using n2 by (intro unchanged_fold_snd) (simp_all add: s)
  then have "unchanged n hp
      (snd (fold step [0..<length (channelRefs targetBuffer)] (0, hp2)))"
    using 1 cf(1) by (auto intro: unchanged_trans)
  then show ?thesis
    unfolding applyDynamicRingModulation_h_def Let_def e prod.case c snd_conv step_def .
qed

lemma applySpectralShaping_h_frame:
  "n \<le> length hp \<Longrightarrow>
   unchanged n hp (snd (applySpectralShaping_h h sourceBuffer targetBuffer params hp))"
  unfolding applySpectralShaping_h_def by (rule hostBuffer_frame)

lemma trimSilence_h_frame:
  assumes "n \<le> length hp"
  shows "unchanged n hp (snd (trimSilence_h buffer threshold hp))"
proof (cases "firstSample threshold (hp ! (channelRefs buffer ! 0)) = 0")
  case True
  then show ?thesis by (simp add: trimSilence_h_def unchanged_refl)
next
  case False
  define first where "first = firstSample threshold (hp ! (channelRefs buffer ! 0))"
  obtain res hp1 where c: "createBuffer_h (length (channelRefs buffer)) (lengthOf buffer - first)
      (sampleRateOf buffer) hp = (res, hp1)"
    by (meson surj_pair)
  note cf = createBuffer_h_frame [OF c assms]
  note n1 = unchanged_le [OF cf(1) assms]
  define step where "step = (\<lambda>i (h::heap).
      case newFloat32Array (drop first (h ! (channelRefs buffer ! i))) h of
        (sliceRef, h1) \<Rightarrow> h1[channelRefs res ! i := h1 ! sliceRef])"
  have s: "unchanged n h (step i h)" if "i < length (channelRefs buffer)" "n \<le> length h"
    for i h
    unfolding step_def newFloat32Array_def prod.case
    using cf(3) [OF that(1)] that(2) by (simp add: unchanged_def)
  have "unchanged n hp1 (fold step [0..<length (channelRefs buffer)] hp1)"
    using n1 by (intro unchanged_fold) (simp_all add: s)
  with cf(1) have "unchanged n hp (fold step [0..<length (channelRefs buffer)] hp1)"
    by (rule unchanged_trans)
  then show ?thesis
    using False
    unfolding trimSilence_h_def Let_def first_def [symmetric] c prod.case step_def
    by simp
qed

lemma applyConvolution_h_frame:
  assumes "n \<le> length hp"
  shows "unchanged n hp (snd (applyConvolution_h h sourceBuffer targetBuffer hp))"
proof -
  define b where "b = renderConvolver h (contents hp sourceBuffer) (contents hp targetBuffer)
      (lengthOf sourceBuffer + lengthOf targetBuffer - 1)"
  obtain rendered hp1 where r: "hostBuffer b hp = (rendered, hp1)"
    by (meson surj_pair)
  have 1: "unchanged n hp hp1" using hostBuffer_frame [OF assms, of b] by (simp add: r)
  have "unchanged n hp1 (snd (trimSilence_h rendered 0.005 hp1))"
    using unchanged_le [OF 1 assms] by (rule trimSilence_h_frame)
  with 1 have "unchanged n hp (snd (trimSilence_h rendered 0.005 hp1))"
    by (rule unchanged_trans)
  then show ?thesis
    unfolding applyConvolution_h_def Let_def b_def [symmetric] r prod.case .
qed

lemma applyTimeScaleWarping_h_frame:
  "n \<le> length hp \<Longrightarrow>
   unchanged n hp (snd (applyTimeScaleWarping_h h sourceBuffer targetBuffer params hp))"
  by (simp add: applyTimeScaleWarping_h_def Let_def hostBuffer_frame unchanged_refl)

lemma applyInterferenceEchoes_h_frame:
  "n \<le> length hp \<Longrightarrow>
   unchanged n hp (snd (applyInterferenceEchoes_h h sourceBuffer targetBuffer params hp))"
  by (simp add: applyInterferenceEchoes_h_def Let_def hostBuffer_frame unchanged_refl)

lemma applyHarmonicImprinting_h_frame:
  assumes "n \<le> length hp"
  shows "unchanged n hp (snd (applyHarmonicImprinting_h h sourceBuffer targetBuffer params hp))"
proof -
  obtain r hp1 where d: "detectHarmonics_h sourceBuffer (orDefault (numHarmonics params) 12)
      (sampleRateOf targetBuffer) hp = (r, hp1)"
    by (meson surj_pair)
  have 1: "unchanged n hp hp1"
    using detectHarmonics_h_frame [OF assms, of sourceBuffer
        "orDefault (numHarmonics params) 12" "sampleRateOf targetBuffer"]
    unfolding d by simp
  note n1 = unchanged_le [OF 1 assms]
  have 2: "unchanged n hp (snd (hostBuffer b hp1))" for b
    using 1 hostBuffer_frame [OF n1, of b] by (rule unchanged_trans)
  show ?thesis
    unfolding applyHarmonicImprinting_h_def d
    using 1 2 by (cases r) (simp_all add: split_beta)
qed

lemma applyFormantShifting_h_frame:
  assumes "n \<le> length hp"
  shows "unchanged n hp (snd (applyFormantShifting_h h sourceBuffer targetBuffer params hp))"
proof -
  obtain r hp1 where d: "detectFormants_h sourceBuffer (orDefault (numFormants params) 4)
      (sampleRateOf targetBuffer) hp = (r, hp1)"
    by (meson surj_pair)
  have 1: "unchanged n hp hp1"
    using detectFormants_h_frame [OF assms, of sourceBuffer
        "orDefault (numFormants params) 4" "sampleRateOf targetBuffer"]
    unfolding d by simp
  note n1 = unchanged_le [OF 1 assms]
  have 2: "unchanged n hp (snd (hostBuffer b hp1))" for b
    using 1 hostBuffer_frame [OF n1, of b] by (rule unchanged_trans)
  show ?thesis
    unfolding applyFormantShifting_h_def d
    using 1 2 by (cases r) (simp_all add: split_beta)
qed

lemma plain_frame: "unchanged n hp (snd r) \<Longrightarrow> unchanged n hp (snd (plain random r))"
  by (simp add: plain_def)

lemma raising_frame: "unchanged n hp (snd r) \<Longrightarrow> unchanged n hp (snd (raising random r))"
  by (simp add: raising_def split: sum.splits)

lemma run_h_frame:
  assumes "n \<le> length hp"
  shows "unchanged n hp (snd (run_h h random sourceBuffer targetBuffer params type hp))"
proof (cases type)
  case SURFACE_TRANSLATE
  then show ?thesis
    using applySurfaceTranslationMapping_h_frame [OF assms, of random sourceBuffer targetBuffer
        params]
    by (simp add: run_h_def split_beta)
qed (simp_all add: run_h_def assms plain_frame raising_frame unchanged_refl
    applyAmplitudeMapping_h_frame applyRhythmicGating_h_frame applySpectralShaping_h_frame
    applyConvolution_h_frame applyTimeScaleWarping_h_frame applyFourierMasking_h_frame
    applyHarmonicImprinting_h_frame applyInterferenceEchoes_h_frame
    applyFormantShifting_h_frame applyDynamicRingModulation_h_frame)

lemma applyTransformationMorph_h_frame:
  assumes "n \<le> length hp"
  shows "unchanged n hp
    (snd (applyTransformationMorph_h h random sourceBuffer targetBuffer transformA transformB
            params hp))"
proof -
  obtain ra hp1 where a: "run_h h random sourceBuffer targetBuffer params transformA hp
      = (ra, hp1)"
    by (meson surj_pair)
  have 1: "unchanged n hp hp1"
    using run_h_frame [OF assms, of h random sourceBuffer targetBuffer params transformA]
    by (simp add: a)
  note n1 = unchanged_le [OF 1 assms]
  show ?thesis
  proof (cases ra)
    case (Inl e)
    with 1 show ?thesis by (simp add: applyTransformationMorph_h_def a)
  next
    case (Inr pa)
    obtain resultA random1 where pa: "pa = (resultA, random1)" by (meson surj_pair)
    obtain rb hp2 where b: "run_h h random1 sourceBuffer targetBuffer params transformB hp1
        = (rb, hp2)"
      by (meson surj_pair)
    have 2: "unchanged n hp1 hp2"
      using run_h_frame [OF n1, of h random1 sourceBuffer targetBuffer params transformB]
      by (simp add: b)
    note n2 = unchanged_le [OF 2 n1]
    have 12: "unchanged n hp hp2" using 1 2 by (rule unchanged_trans)
    show ?thesis
    proof (cases rb)
      case (Inl e)
      with 12 show ?thesis by (simp add: applyTransformationMorph_h_def a Inr pa b)
    next
      case (Inr pb)
      obtain resultB random2 where pb: "pb = (resultB, random2)" by (meson surj_pair)
      have "unchanged n hp (snd (hostBuffer x hp2))" for x
        using 12 hostBuffer_frame [OF n2, of x] by (rule unchanged_trans)
      then show ?thesis
        by (simp add: applyTransformationMorph_h_def a \<open>ra = Inr pa\<close> pa b Inr pb Let_def
            split_beta)
    qed
  qed
qed

lemma unchanged_contents:
  assumes "unchanged (length hp) hp hp'" "allocated hp b"
  shows "contents hp' b = contents hp b"
proof -
  have "hp' ! r = hp ! r" if "r \<in> set (channelRefs b)" for r
  proof -
    from that assms(2) have r: "r < length hp" by (simp add: allocated_def list_all_iff)
    then have "hp' ! r = take (length hp) hp' ! r" by simp
    also have "\<dots> = hp ! r" using assms(1) by (simp add: unchanged_def)
    finally show ?thesis .
  qed
  then show ?thesis by (simp add: contents_def)
qed

text \<open>A transform called on an array overwrites it: the frame condition below is not a
  consequence of the transform leaving its arguments alone.\<close>

lemma callFFT_h_writes:
  "callFFT_h (fft 2) 0 1 False [[1, 2], [0, 0]] = [[3, - 1], [0, 0]]"
proof -
  have l: "log2size 2 = 1" by (simp add: log2size.simps)
  have b: "bitReverse 2 = [0, 1]"
    by (simp add: bitReverse_def l bitReverseAt_def upt_0_2)
  have p: "permute 2 ([1, 2], [0, 0]) = ([1, 2], [0, 0])"
    by (simp add: permute_def upt_0_2 permute_step_def b)
  have bl: "fft_blocks 2 False 2 0 ([1, 2], [0, 0]) = ([3, - 1], [0, 0])"
    by (simp add: fft_blocks.simps butterfly_def sinTable_def cosTable_def upt_0_2 Let_def)
  have "fft_stages 2 False 2 ([1, 2], [0, 0]) = ([3, - 1], [0, 0])"
    by (simp add: fft_stages.simps bl)
  then have "fft 2 ([1, 2], [0, 0]) False = ([3, - 1], [0, 0])"
    by (simp add: fft_def p)
  then show ?thesis by (simp add: callFFT_h_def)
qed

text \<open>
  Claim C10. Every transformation operator (each of the eleven operators that \<open>run\<close>
  dispatches to, and the morph of any two of them) leaves every array that was allocated before
  the call as it was; in particular the channel data of the source and of the target buffer
  are the same after the call as before it, whether the operator returns a buffer or raises.
\<close>

theorem inputs_unchanged:
  assumes "allocated hp sourceBuffer" "allocated hp targetBuffer"
  shows "unchanged (length hp) hp
      (snd (run_h h random sourceBuffer targetBuffer params type hp))
    \<and> contents (snd (run_h h random sourceBuffer targetBuffer params type hp)) sourceBuffer
        = contents hp sourceBuffer
    \<and> contents (snd (run_h h random sourceBuffer targetBuffer params type hp)) targetBuffer
        = contents hp targetBuffer
    \<and> unchanged (length hp) hp
        (snd (applyTransformationMorph_h h random sourceBuffer targetBuffer transformA
                transformB params hp))
    \<and> contents (snd (applyTransformationMorph_h h random sourceBuffer targetBuffer transformA
                transformB params hp)) sourceBuffer
        = contents hp sourceBuffer
    \<and> contents (snd (applyTransformationMorph_h h random sourceBuffer targetBuffer transformA
                transformB params hp)) targetBuffer
        = contents hp targetBuffer"
proof -
  have r: "unchanged (length hp) hp
      (snd (run_h h random sourceBuffer targetBuffer params type hp))"
    by (rule run_h_frame) simp
  have m: "unchanged (length hp) hp
        (snd (applyTransformationMorph_h h random sourceBuffer targetBuffer transformA
                transformB params hp))"
    by (rule applyTransformationMorph_h_frame) simp
  show ?thesis
    using r m unchanged_contents [OF r assms(1)] unchanged_contents [OF r assms(2)]
      unchanged_contents [OF m assms(1)] unchanged_contents [OF m assms(2)]
    by simp
qed

lemma surface_example:
  "applySurfaceTranslationMapping_h zeroRandom shortRef exampleRef defaultParams exampleHeap
     = ((\<lparr>channelRefs = [3], lengthOf = 1, sampleRateOf = 44100\<rparr>, zeroRandom),
        [[1], [1 / 2, - 1], [- 1, 1 / 2], [1 / 2]])"
  by (simp add: applySurfaceTranslationMapping_h_def newFloat32Array_def createBuffer_h_def
      surfaceSample_def js_round_def shortRef_def exampleRef_def exampleHeap_def
      defaultParams_def orDefault_def zeroRandom_def Let_def)

theorem inputs_unchanged_witness:
  "allocated exampleHeap shortRef \<and> allocated exampleHeap exampleRef
   \<and> contents (snd (run_h silentHost zeroRandom shortRef exampleRef defaultParams
        SURFACE_TRANSLATE exampleHeap)) exampleRef = contents exampleHeap exampleRef
   \<and> snd (run_h silentHost zeroRandom shortRef exampleRef defaultParams
        SURFACE_TRANSLATE exampleHeap) = [[1], [1 / 2, - 1], [- 1, 1 / 2], [1 / 2]]
   \<and> contents (snd (run_h silentHost zeroRandom shortRef exampleRef defaultParams
        HARMONIC_IMPRINT exampleHeap)) shortRef = contents exampleHeap shortRef
   \<and> contents (snd (applyTransformationMorph_h silentHost zeroRandom shortRef exampleRef
        FOURIER_MASKING FORMANT_SHIFTING defaultParams exampleHeap)) exampleRef
       = contents exampleHeap exampleRef"
proof -
  have a: "allocated exampleHeap shortRef" "allocated exampleHeap exampleRef"
    by (simp_all add: allocated_def exampleHeap_def shortRef_def exampleRef_def)
  have s: "snd (run_h silentHost zeroRandom shortRef exampleRef defaultParams
        SURFACE_TRANSLATE exampleHeap) = [[1], [1 / 2, - 1], [- 1, 1 / 2], [1 / 2]]"
    by (simp add: run_h_def surface_example)
  from inputs_unchanged [OF a, of silentHost zeroRandom defaultParams SURFACE_TRANSLATE]
  have 1: "contents (snd (run_h silentHost zeroRandom shortRef exampleRef defaultParams
        SURFACE_TRANSLATE exampleHeap)) exampleRef = contents exampleHeap exampleRef"
    by blast
  from inputs_unchanged [OF a, of silentHost zeroRandom defaultParams HARMONIC_IMPRINT]
  have 2: "contents (snd (run_h silentHost zeroRandom shortRef exampleRef defaultParams
        HARMONIC_IMPRINT exampleHeap)) shortRef = contents exampleHeap shortRef"
    by blast
  from inputs_unchanged [OF a, of silentHost zeroRandom defaultParams _ FOURIER_MASKING
      FORMANT_SHIFTING]
  have 3: "contents (snd (applyTransformationMorph_h silentHost zeroRandom shortRef exampleRef
        FOURIER_MASKING FORMANT_SHIFTING defaultParams exampleHeap)) exampleRef
       = contents exampleHeap exampleRef"
    by blast
  from a s 1 2 3 show ?thesis by blast
qed

subsection \<open>The operators on the heap compute what the operators on values compute\<close>

lemma contents_channel:
  "c < length (channelRefs b) \<Longrightarrow> getChannelData (contents hp b) c = hp ! (channelRefs b ! c)"
  by (simp add: contents_def getChannelData_def)

lemma contents_shape:
  "bufferLength (contents hp b) = lengthOf b" "sampleRate (contents hp b) = sampleRateOf b"
  "numberOfChannels (contents hp b) = length (channelRefs b)"
  by (simp_all add: contents_def numberOfChannels_def)

lemma spectrumOfChunk_h_value:
  assumes "channelRefs buffer ! 0 < length hp"
  shows "(snd (spectrumOfChunk_h f n buffer hp) ! fst (fst (spectrumOfChunk_h f n buffer hp)),
          snd (spectrumOfChunk_h f n buffer hp) ! snd (fst (spectrumOfChunk_h f n buffer hp)))
    = f (loadChunk n (hp ! (channelRefs buffer ! 0)), replicate n 0) False"
proof (cases "length (hp ! (channelRefs buffer ! 0)) > n")
  case True
  then show ?thesis
    using assms
    by (simp add: spectrumOfChunk_h_def newFloat32Array_def callFFT_h_def loadChunk_def Let_def
        nth_append)
next
  case False
  then show ?thesis
    using assms
    by (simp add: spectrumOfChunk_h_def newFloat32Array_def callFFT_h_def loadChunk_def Let_def
        nth_append)
qed

lemma detectHarmonics_h_value:
  assumes "allocated hp buffer" "channelRefs buffer \<noteq> []"
  shows "fst (detectHarmonics_h buffer k rate hp) = detectHarmonics (contents hp buffer) k rate"
proof (cases "getFFT 8192")
  case (Inl e)
  then show ?thesis by (simp add: detectHarmonics_h_def detectHarmonics_def)
next
  case (Inr f)
  from assms have r: "channelRefs buffer ! 0 < length hp"
    by (cases "channelRefs buffer") (simp_all add: allocated_def)
  from assms(2) have c: "getChannelData (contents hp buffer) 0 = hp ! (channelRefs buffer ! 0)"
    by (intro contents_channel) simp
  obtain re im hp1 where s: "spectrumOfChunk_h f 8192 buffer hp = ((re, im), hp1)"
    by (metis surj_pair)
  from spectrumOfChunk_h_value [OF r, of f 8192]
  have v: "(hp1 ! re, hp1 ! im)
      = f (loadChunk 8192 (hp ! (channelRefs buffer ! 0)), replicate 8192 0) False"
    by (simp add: s)
  have "hp1 ! re = fst (f (loadChunk 8192 (hp ! (channelRefs buffer ! 0)), replicate 8192 0) False)"
    "hp1 ! im = snd (f (loadChunk 8192 (hp ! (channelRefs buffer ! 0)), replicate 8192 0) False)"
    using v by (metis fst_conv, metis snd_conv)
  then show ?thesis
    by (simp add: detectHarmonics_h_def detectHarmonics_def Inr s c Let_def)
qed

lemma applySurfaceTranslationMapping_h_value:
  assumes "allocated hp sourceBuffer" "allocated hp targetBuffer"
    and "channelRefs sourceBuffer \<noteq> []" "channelRefs targetBuffer \<noteq> []"
  shows "contents
      (snd (applySurfaceTranslationMapping_h random sourceBuffer targetBuffer params hp))
      (fst (fst (applySurfaceTranslationMapping_h random sourceBuffer targetBuffer params hp)))
    = fst (applySurfaceTranslationMapping random (contents hp sourceBuffer)
             (contents hp targetBuffer) params)"
proof -
  from assms(1,3) have s: "channelRefs sourceBuffer ! 0 < length hp"
    by (cases "channelRefs sourceBuffer") (simp_all add: allocated_def)
  from assms(2,4) have t: "channelRefs targetBuffer ! 0 < length hp"
    by (cases "channelRefs targetBuffer") (simp_all add: allocated_def)
  from assms(3) have cs: "getChannelData (contents hp sourceBuffer) 0
      = hp ! (channelRefs sourceBuffer ! 0)"
    by (intro contents_channel) simp
  from assms(4) have ct: "getChannelData (contents hp targetBuffer) 0
      = hp ! (channelRefs targetBuffer ! 0)"
    by (intro contents_channel) simp
  show ?thesis
    using s t
    by (simp add: applySurfaceTranslationMapping_h_def applySurfaceTranslationMapping_def
        newFloat32Array_def createBuffer_h_def cs ct Let_def nth_append nth_list_update
        contents_shape contents_def [of _ "\<lparr>channelRefs = _, lengthOf = _, sampleRateOf = _\<rparr>"])
qed

lemma fold_fresh_writes:
  assumes "length hp1 = base + k"
    and "\<And>c h. c < k \<Longrightarrow> length h = base + k \<Longrightarrow> take base h = take base hp1 \<Longrightarrow> F c h = G c"
    and "j \<le> k"
  shows "fold (\<lambda>c h. h[base + c := F c h]) [0..<j] hp1
    = take base hp1 @ map G [0..<j] @ drop (base + j) hp1"
  using assms(3)
proof (induction j)
  case 0
  show ?case by simp
next
  case (Suc j)
  let ?h = "take base hp1 @ map G [0..<j] @ drop (base + j) hp1"
  from Suc.prems have j: "j < k" by simp
  have IH: "fold (\<lambda>c h. h[base + c := F c h]) [0..<j] hp1 = ?h"
    using Suc by simp
  have len: "length ?h = base + k" using assms(1) j by simp
  have tk: "take base ?h = take base hp1" using assms(1) by simp
  have F: "F j ?h = G j" using assms(2) [OF j len tk] .
  have d: "drop (base + j) hp1 = hp1 ! (base + j) # drop (base + Suc j) hp1"
    using assms(1) j by (simp add: Cons_nth_drop_Suc)
  have "?h[base + j := G j] = take base hp1 @ map G [0..<j] @ (G j # drop (base + Suc j) hp1)"
    using assms(1) by (simp add: list_update_append d)
  then show ?case
    by (simp add: IH F)
qed

lemma fold_fresh_block:
  assumes "\<And>c h. c < k \<Longrightarrow> length h = length hp + k \<Longrightarrow> take (length hp) h = hp \<Longrightarrow> F c h = G c"
  shows "fold (\<lambda>c h. h[[length hp..<length hp + k] ! c := F c h]) [0..<k] (hp @ replicate k z)
    = hp @ map G [0..<k]"
proof -
  let ?hp1 = "hp @ replicate k z"
  have l1: "length ?hp1 = length hp + k" by simp
  have FG: "F c h = G c"
    if "c < k" "length h = length hp + k" "take (length hp) h = take (length hp) ?hp1" for c h
    using that assms by simp
  have "fold (\<lambda>c h. h[[length hp..<length hp + k] ! c := F c h]) [0..<k] ?hp1
      = fold (\<lambda>c h. h[length hp + c := F c h]) [0..<k] ?hp1"
    by (rule fold_cong) auto
  also have "\<dots> = take (length hp) ?hp1 @ map G [0..<k] @ drop (length hp + k) ?hp1"
    by (rule fold_fresh_writes [OF l1 _ order_refl]) (rule FG)
  also have "\<dots> = hp @ map G [0..<k]" by simp
  finally show ?thesis .
qed

lemma old_array:
  assumes "take (length hp) h = hp" "r < length hp"
  shows "h ! r = hp ! r"
proof -
  from assms(2) have "h ! r = take (length hp) h ! r" by simp
  then show ?thesis by (simp only: assms(1))
qed

lemma allocated_nth:
  "allocated hp b \<Longrightarrow> c < length (channelRefs b) \<Longrightarrow> channelRefs b ! c < length hp"
  by (simp add: allocated_def list_all_length)

lemma contents_fresh_block:
  "length ys = k \<Longrightarrow>
   contents (hp @ ys) \<lparr>channelRefs = [length hp..<length hp + k], lengthOf = n, sampleRateOf = r\<rparr>
     = \<lparr>channelData = ys, bufferLength = n, sampleRate = r\<rparr>"
  by (simp add: contents_def) (rule nth_equalityI, simp_all add: nth_append)

lemma getAmplitudeEnvelope_h_eq:
  assumes "allocated hp buffer"
  shows "getAmplitudeEnvelope_h buffer smoothing hp
    = (\<lparr>channelRefs = [length hp..<length hp + length (channelRefs buffer)],
         lengthOf = lengthOf buffer, sampleRateOf = sampleRateOf buffer\<rparr>,
       hp @ map (\<lambda>c. envelopeChannel smoothing (hp ! (channelRefs buffer ! c)))
              [0..<length (channelRefs buffer)])"
proof -
  have "fold (\<lambda>c h. h[[length hp..<length hp + length (channelRefs buffer)] ! c :=
              envelopeChannel smoothing (h ! (channelRefs buffer ! c))])
          [0..<length (channelRefs buffer)]
          (hp @ replicate (length (channelRefs buffer)) (replicate (lengthOf buffer) 0))
      = hp @ map (\<lambda>c. envelopeChannel smoothing (hp ! (channelRefs buffer ! c)))
              [0..<length (channelRefs buffer)]"
    by (rule fold_fresh_block) (simp add: old_array allocated_nth [OF assms])
  then show ?thesis
    by (simp add: getAmplitudeEnvelope_h_def createBuffer_h_def)
qed

lemma getAmplitudeEnvelope_h_value:
  assumes "allocated hp buffer"
  shows "contents (snd (getAmplitudeEnvelope_h buffer smoothing hp))
      (fst (getAmplitudeEnvelope_h buffer smoothing hp))
    = getAmplitudeEnvelope (contents hp buffer) smoothing"
proof -
  have "map (\<lambda>c. envelopeChannel smoothing (hp ! (channelRefs buffer ! c)))
          [0..<length (channelRefs buffer)]
      = map (envelopeChannel smoothing) (map (\<lambda>r. hp ! r) (channelRefs buffer))"
    by (rule nth_equalityI) simp_all
  then show ?thesis
    by (simp add: getAmplitudeEnvelope_h_eq [OF assms] contents_fresh_block
        getAmplitudeEnvelope_def contents_def [of hp buffer])
qed

lemma applyEnvelopeToBuffer_h_eq:
  assumes "allocated hp envelopeBuffer" "allocated hp targetBuffer"
    and "channelRefs envelopeBuffer \<noteq> []"
  shows "applyEnvelopeToBuffer_h envelopeBuffer targetBuffer hp
    = (\<lparr>channelRefs = [length hp..<length hp + length (channelRefs targetBuffer)],
         lengthOf = lengthOf targetBuffer, sampleRateOf = sampleRateOf targetBuffer\<rparr>,
       hp @ channelData (applyEnvelopeToBuffer (contents hp envelopeBuffer)
                           (contents hp targetBuffer)))"
proof -
  define G where "G = (\<lambda>channel.
      let targetData = hp ! (channelRefs targetBuffer ! channel);
          envelopeData = hp ! (channelRefs envelopeBuffer
                                 ! (channel mod length (channelRefs envelopeBuffer)));
          len = min (length targetData) (length envelopeData)
      in map (\<lambda>i. if i < len then targetData ! i * envelopeData ! i else 0)
           [0..<lengthOf targetBuffer])"
  have m: "channel mod length (channelRefs envelopeBuffer) < length (channelRefs envelopeBuffer)"
    for channel
    using assms(3) by simp
  have "fold (\<lambda>channel h.
                   let targetData = h ! (channelRefs targetBuffer ! channel);
                       envelopeData = h ! (channelRefs envelopeBuffer
                                            ! (channel mod length (channelRefs envelopeBuffer)));
                       len = min (length targetData) (length envelopeData)
                   in h[[length hp..<length hp + length (channelRefs targetBuffer)] ! channel :=
                          map (\<lambda>i. if i < len then targetData ! i * envelopeData ! i else 0)
                            [0..<lengthOf targetBuffer]])
          [0..<length (channelRefs targetBuffer)]
          (hp @ replicate (length (channelRefs targetBuffer))
                  (replicate (lengthOf targetBuffer) 0))
      = hp @ map G [0..<length (channelRefs targetBuffer)]"
    unfolding Let_def
    by (rule fold_fresh_block)
      (simp add: G_def Let_def old_array allocated_nth [OF assms(2)] allocated_nth [OF assms(1) m])
  moreover have "map G [0..<length (channelRefs targetBuffer)]
      = channelData (applyEnvelopeToBuffer (contents hp envelopeBuffer)
                           (contents hp targetBuffer))"
    using m by (simp add: applyEnvelopeToBuffer_def G_def contents_shape contents_channel Let_def)
  ultimately show ?thesis
    by (simp add: applyEnvelopeToBuffer_h_def createBuffer_h_def Let_def)
qed

lemma applyAmplitudeMapping_h_value:
  assumes "allocated hp sourceBuffer" "allocated hp targetBuffer"
    and "channelRefs sourceBuffer \<noteq> []"
  shows "contents (snd (applyAmplitudeMapping_h sourceBuffer targetBuffer hp))
      (fst (applyAmplitudeMapping_h sourceBuffer targetBuffer hp))
    = applyAmplitudeMapping (contents hp sourceBuffer) (contents hp targetBuffer)"
proof -
  define env where "env = fst (getAmplitudeEnvelope_h sourceBuffer 0.995 hp)"
  define hp1 where "hp1 = snd (getAmplitudeEnvelope_h sourceBuffer 0.995 hp)"
  have e: "getAmplitudeEnvelope_h sourceBuffer 0.995 hp = (env, hp1)"
    by (simp add: env_def hp1_def)
  have u: "unchanged (length hp) hp hp1"
    unfolding hp1_def by (rule getAmplitudeEnvelope_h_frame) simp
  have ce: "contents hp1 env = getAmplitudeEnvelope (contents hp sourceBuffer) 0.995"
    unfolding env_def hp1_def by (rule getAmplitudeEnvelope_h_value [OF assms(1)])
  have ct: "contents hp1 targetBuffer = contents hp targetBuffer"
    using u assms(2) by (rule unchanged_contents)
  have ae: "allocated hp1 env" "channelRefs env \<noteq> []"
    using assms(3)
    by (simp_all add: env_def hp1_def getAmplitudeEnvelope_h_eq [OF assms(1)] allocated_def
        list_all_iff)
  have at: "allocated hp1 targetBuffer"
    using assms(2) u by (auto simp: allocated_def list_all_iff unchanged_def)
  let ?r = "applyEnvelopeToBuffer (contents hp1 env) (contents hp1 targetBuffer)"
  have lr: "length (channelData ?r) = length (channelRefs targetBuffer)"
    using applyEnvelopeToBuffer_shape(1) [of "contents hp1 env" "contents hp1 targetBuffer"]
    by (simp add: numberOfChannels_def contents_def)
  have "contents (snd (applyEnvelopeToBuffer_h env targetBuffer hp1))
      (fst (applyEnvelopeToBuffer_h env targetBuffer hp1))
      = \<lparr>channelData = channelData ?r, bufferLength = lengthOf targetBuffer,
          sampleRate = sampleRateOf targetBuffer\<rparr>"
    by (simp only: applyEnvelopeToBuffer_h_eq [OF ae(1) at ae(2)] fst_conv snd_conv
        contents_fresh_block [OF lr])
  also have "\<dots> = ?r"
    by (simp add: applyEnvelopeToBuffer_def contents_shape)
  finally have "contents (snd (applyEnvelopeToBuffer_h env targetBuffer hp1))
      (fst (applyEnvelopeToBuffer_h env targetBuffer hp1)) = ?r" .
  then show ?thesis
    unfolding applyAmplitudeMapping_h_def e prod.case applyAmplitudeMapping_def ce ct .
qed

subsection \<open>What one stage of the transform computes\<close>






lemma stageF_cong:
  assumes "a p = b p" "a (p + len div 2) = b (p + len div 2)"
    "a (p - len div 2) = b (p - len div 2)"
  shows "stageF invert len a p = stageF invert len b p"
  using assms by (simp add: stageF_def)







subsection \<open>What the stages compute together\<close>

















subsection \<open>The bit-reversal permutation\<close>
















subsection \<open>The matrix of the transform\<close>

















subsection \<open>The transform as a matrix product, and its inverse\<close>







subsection \<open>The round trip of the transform\<close>



end
